theory Spec2Isabelle
  imports Complex_Main
begin

section \<open>Python values and exceptions\<close>

text \<open>
  The handler of \<^verbatim>\<open>index.py\<close> receives \<^verbatim>\<open>event\<close> as a decoded JSON document, and
  Python puts no type on it. The values a JSON document decodes to are modelled by one
  datatype. A dict is an association list in insertion order, read with \<open>map_of\<close>: the first
  binding of a key is the entry of the dict. Characters are code points below 256, and a
  float is a finite one.
\<close>

datatype py =
    PNone
  | PBool bool
  | PInt int
  | PFloat real
  | PStr string
  | PList "py list"
  | PDict "(string \<times> py) list"

datatype exn =
    ValueError string
  | AttributeError string
  | KeyError string
  | ClientError string

definition repr_str :: "string \<Rightarrow> string" where
  "repr_str s = CHR 0x27 # s @ [CHR 0x27]"

text \<open>\<^verbatim>\<open>str(e)\<close>: the message of the exception; a \<^verbatim>\<open>KeyError\<close> prints the repr of its key.\<close>

fun str_exn :: "exn \<Rightarrow> string" where
  "str_exn (ValueError m) = m"
| "str_exn (AttributeError m) = m"
| "str_exn (KeyError k) = repr_str k"
| "str_exn (ClientError m) = m"

fun type_name :: "py \<Rightarrow> string" where
  "type_name PNone = ''NoneType''"
| "type_name (PBool b) = ''bool''"
| "type_name (PInt i) = ''int''"
| "type_name (PFloat r) = ''float''"
| "type_name (PStr s) = ''str''"
| "type_name (PList xs) = ''list''"
| "type_name (PDict kvs) = ''dict''"

text \<open>
  \<^verbatim>\<open>obj.get(key, default)\<close>: only a dict has the method; on any other value the attribute
  lookup raises \<^verbatim>\<open>AttributeError\<close>. A key that is present with the value \<^verbatim>\<open>None\<close> yields
  \<^verbatim>\<open>None\<close>, not the default.
\<close>

fun py_get :: "py \<Rightarrow> string \<Rightarrow> py \<Rightarrow> exn + py" where
  "py_get (PDict kvs) k d = Inr (case map_of kvs k of None \<Rightarrow> d | Some v \<Rightarrow> v)"
| "py_get v k d =
     Inl (AttributeError (repr_str (type_name v) @ '' object has no attribute '' @ repr_str ''get''))"

text \<open>Truth value testing, as \<^verbatim>\<open>not x\<close> applies it.\<close>

fun truthy :: "py \<Rightarrow> bool" where
  "truthy PNone = False"
| "truthy (PBool b) = b"
| "truthy (PInt i) = (i \<noteq> 0)"
| "truthy (PFloat r) = (r \<noteq> 0)"
| "truthy (PStr s) = (s \<noteq> [])"
| "truthy (PList xs) = (xs \<noteq> [])"
| "truthy (PDict kvs) = (kvs \<noteq> [])"

section \<open>Text encoding of the response body\<close>

text \<open>
  \<^verbatim>\<open>json.dumps\<close> with its defaults (\<^verbatim>\<open>ensure_ascii=True\<close>, separators \<^verbatim>\<open>", "\<close> and
  \<^verbatim>\<open>": "\<close>), on the only shape the handler passes to it: a dict from strings to strings.
\<close>

definition hex_digit :: "nat \<Rightarrow> char" where
  "hex_digit n = ''0123456789abcdef'' ! (n mod 16)"

definition escape_char :: "char \<Rightarrow> string" where
  "escape_char c =
     (if c = CHR 0x22 then [CHR 0x5C, CHR 0x22]
      else if c = CHR 0x5C then [CHR 0x5C, CHR 0x5C]
      else if c = CHR 0x0A then [CHR 0x5C, CHR ''n'']
      else if c = CHR 0x0D then [CHR 0x5C, CHR ''r'']
      else if c = CHR 0x09 then [CHR 0x5C, CHR ''t'']
      else if c = CHR 0x08 then [CHR 0x5C, CHR ''b'']
      else if c = CHR 0x0C then [CHR 0x5C, CHR ''f'']
      else if 32 \<le> (of_char c :: nat) \<and> (of_char c :: nat) \<le> 126 then [c]
      else [CHR 0x5C, CHR ''u'', CHR ''0'', CHR ''0'',
            hex_digit ((of_char c :: nat) div 16), hex_digit (of_char c :: nat)])"

definition json_string :: "string \<Rightarrow> string" where
  "json_string s = CHR 0x22 # concat (map escape_char s) @ [CHR 0x22]"

fun json_members :: "(string \<times> string) list \<Rightarrow> string" where
  "json_members [] = []"
| "json_members [(k, v)] = json_string k @ '': '' @ json_string v"
| "json_members ((k, v) # kvs) = json_string k @ '': '' @ json_string v @ '', '' @ json_members kvs"

definition json_dumps :: "(string \<times> string) list \<Rightarrow> string" where
  "json_dumps kvs = CHR ''{'' # json_members kvs @ [CHR ''}'']"

text \<open>
  Decoding, for the statements that speak of what a body decodes to: the reading back of
  the texts that \<open>json_dumps\<close> writes. A string is scanned character by character, in the
  plain state, after a backslash, or inside the four hexadecimal digits of \<^verbatim>\<open>\u\<close>.
\<close>

definition hex_val :: "char \<Rightarrow> nat option" where
  "hex_val c =
     (let n = (of_char c :: nat) in
      if 48 \<le> n \<and> n \<le> 57 then Some (n - 48)
      else if 97 \<le> n \<and> n \<le> 102 then Some (n - 87)
      else if 65 \<le> n \<and> n \<le> 70 then Some (n - 55)
      else None)"

definition simple_escape :: "char \<Rightarrow> char option" where
  "simple_escape e =
     (if e = CHR 0x22 then Some (CHR 0x22)
      else if e = CHR 0x5C then Some (CHR 0x5C)
      else if e = CHR ''/'' then Some (CHR ''/'')
      else if e = CHR ''n'' then Some (CHR 0x0A)
      else if e = CHR ''r'' then Some (CHR 0x0D)
      else if e = CHR ''t'' then Some (CHR 0x09)
      else if e = CHR ''b'' then Some (CHR 0x08)
      else if e = CHR ''f'' then Some (CHR 0x0C)
      else None)"

definition cons_result :: "char \<Rightarrow> (string \<times> string) option \<Rightarrow> (string \<times> string) option" where
  "cons_result c r = (case r of None \<Rightarrow> None | Some (s, rest) \<Rightarrow> Some (c # s, rest))"

datatype scan = Plain | Escaped | Hex nat nat

fun scan_string :: "scan \<Rightarrow> string \<Rightarrow> (string \<times> string) option" where
  "scan_string st [] = None"
| "scan_string Plain (c # cs) =
     (if c = CHR 0x22 then Some ([], cs)
      else if c = CHR 0x5C then scan_string Escaped cs
      else cons_result c (scan_string Plain cs))"
| "scan_string Escaped (c # cs) =
     (if c = CHR ''u'' then scan_string (Hex 4 0) cs
      else case simple_escape c of
             None \<Rightarrow> None
           | Some ch \<Rightarrow> cons_result ch (scan_string Plain cs))"
| "scan_string (Hex k v) (c # cs) =
     (case hex_val c of
        None \<Rightarrow> None
      | Some d \<Rightarrow>
          if k \<le> 1 then
            (if 16 * v + d < 256 then cons_result (char_of (16 * v + d)) (scan_string Plain cs)
             else None)
          else scan_string (Hex (k - 1) (16 * v + d)) cs)"

text \<open>
  A string in quotes, a member \<^verbatim>\<open>"key": "value"\<close>, and the members up to the closing brace.
  The bound on the members is the length of the text, which every member shortens.
\<close>

definition parse_string :: "string \<Rightarrow> (string \<times> string) option" where
  "parse_string s =
     (case s of [] \<Rightarrow> None | c # cs \<Rightarrow> if c = CHR 0x22 then scan_string Plain cs else None)"

definition parse_member :: "string \<Rightarrow> ((string \<times> string) \<times> string) option" where
  "parse_member s =
     (case parse_string s of
        None \<Rightarrow> None
      | Some (k, r) \<Rightarrow>
          (case r of
             c1 # c2 # r' \<Rightarrow>
               if c1 = CHR '':'' \<and> c2 = CHR '' '' then
                 (case parse_string r' of None \<Rightarrow> None | Some (v, r'') \<Rightarrow> Some ((k, v), r''))
               else None
           | _ \<Rightarrow> None))"

fun parse_members :: "nat \<Rightarrow> string \<Rightarrow> (string \<times> string) list option" where
  "parse_members 0 s = None"
| "parse_members (Suc n) s =
     (case parse_member s of
        None \<Rightarrow> None
      | Some (kv, r) \<Rightarrow>
          if r = ''}'' then Some [kv]
          else (case r of
                  c1 # c2 # r' \<Rightarrow>
                    if c1 = CHR '','' \<and> c2 = CHR '' '' then
                      (case parse_members n r' of None \<Rightarrow> None | Some kvs \<Rightarrow> Some (kv # kvs))
                    else None
                | _ \<Rightarrow> None))"

definition json_loads :: "string \<Rightarrow> (string \<times> string) list option" where
  "json_loads s =
     (case s of
        [] \<Rightarrow> None
      | c # cs \<Rightarrow>
          if c = CHR ''{'' then (if cs = ''}'' then Some [] else parse_members (length cs) cs)
          else None)"

section \<open>The store client\<close>

text \<open>
  The keyword arguments of \<^verbatim>\<open>dynamodb.update_item\<close> and the part of its answer the
  handler reads. An attribute value travels as \<^verbatim>\<open>{"S": text}\<close> or \<^verbatim>\<open>{"N": digits}\<close>.
\<close>

datatype attr_value = S string | N string

record update_request =
  TableName :: string
  Key :: "(string \<times> attr_value) list"
  UpdateExpression :: string
  ExpressionAttributeNames :: "(string \<times> string) list"
  ExpressionAttributeValues :: "(string \<times> attr_value) list"
  ReturnValues :: string

record update_response =
  Attributes :: "(string \<times> attr_value) list option"

text \<open>
  What a table holds: under each primary key \<^verbatim>\<open>id\<close> an item, a finite map from the names
  of its other attributes to a text or a number.
\<close>

datatype stored = SV string | NV nat

type_synonym item = "string \<rightharpoonup> stored"
type_synonym store = "string \<Rightarrow> string \<rightharpoonup> item"

text \<open>
  The world a handler invocation runs in: the store, the lines printed to standard output,
  and the requests sent to the store so far, in order.
\<close>

record world =
  ddb :: store
  stdout :: "string list"
  issued :: "update_request list"

type_synonym client = "update_request \<Rightarrow> store \<Rightarrow> (exn + update_response) \<times> store"

definition print :: "string \<Rightarrow> world \<Rightarrow> world" where
  "print line w = w\<lparr>stdout := stdout w @ [line]\<rparr>"

text \<open>One call of the client: the request is sent, the store answers or the call raises.\<close>

definition update_item :: "client \<Rightarrow> update_request \<Rightarrow> world \<Rightarrow> (exn + update_response) \<times> world" where
  "update_item dynamodb req w =
     (case dynamodb req (ddb w) of
        (r, st) \<Rightarrow> (r, w\<lparr>ddb := st, issued := issued w @ [req]\<rparr>))"

section \<open>The handler\<close>

record result =
  statusCode :: int
  body :: string

text \<open>Lines 11 to 13: the two leaf lookups, each through \<^verbatim>\<open>.get\<close> with its default.\<close>

definition object_details :: "py \<Rightarrow> exn + py \<times> py" where
  "object_details event =
     (case py_get event ''detail'' (PDict []) of
        Inl e \<Rightarrow> Inl e
      | Inr s3_event \<Rightarrow>
          (case py_get s3_event ''requestParameters'' (PDict []) of
             Inl e \<Rightarrow> Inl e
           | Inr rp \<Rightarrow>
               (case py_get rp ''bucketName'' PNone of
                  Inl e \<Rightarrow> Inl e
                | Inr bucket_name \<Rightarrow>
                    (case py_get s3_event ''requestParameters'' (PDict []) of
                       Inl e \<Rightarrow> Inl e
                     | Inr rp' \<Rightarrow>
                         (case py_get rp' ''key'' PNone of
                            Inl e \<Rightarrow> Inl e
                          | Inr object_key \<Rightarrow> Inr (bucket_name, object_key))))))"

text \<open>Lines 21 to 28: the one request the handler builds.\<close>

definition visit_request :: "string \<Rightarrow> update_request" where
  "visit_request table_name =
     (let visit_id = ''visit_count'' in
      \<lparr>TableName = table_name,
       Key = [(''id'', S visit_id)],
       UpdateExpression = ''ADD #count :inc'',
       ExpressionAttributeNames = [(''#count'', ''count'')],
       ExpressionAttributeValues = [('':inc'', N ''1'')],
       ReturnValues = ''UPDATED_NEW''\<rparr>)"

text \<open>Line 30: \<^verbatim>\<open>response["Attributes"]["count"]["N"]\<close>, each subscript raising \<^verbatim>\<open>KeyError\<close>.\<close>

definition new_count_of :: "update_response \<Rightarrow> exn + string" where
  "new_count_of response =
     (case Attributes response of
        None \<Rightarrow> Inl (KeyError ''Attributes'')
      | Some attrs \<Rightarrow>
          (case map_of attrs ''count'' of
             None \<Rightarrow> Inl (KeyError ''count'')
           | Some (S s) \<Rightarrow> Inl (KeyError ''N'')
           | Some (N n) \<Rightarrow> Inr n))"

text \<open>Lines 41 to 46: the \<^verbatim>\<open>except Exception\<close> clause.\<close>

definition except_Exception :: "exn \<Rightarrow> world \<Rightarrow> result \<times> world" where
  "except_Exception e w =
     (\<lparr>statusCode = 500,
       body = json_dumps [(''message'', ''Error updating visit count''), (''error'', str_exn e)]\<rparr>,
      print (''Error: '' @ str_exn e) w)"

text \<open>
  The handler. The module globals \<^verbatim>\<open>dynamodb\<close> and \<^verbatim>\<open>table_name\<close> are its first two
  arguments; \<^verbatim>\<open>context\<close> is taken and never read.
\<close>

definition handler :: "client \<Rightarrow> string \<Rightarrow> py \<Rightarrow> 'c \<Rightarrow> world \<Rightarrow> result \<times> world" where
  "handler dynamodb table_name event context w =
     (case object_details event of
        Inl e \<Rightarrow> except_Exception e w
      | Inr (bucket_name, object_key) \<Rightarrow>
          if \<not> truthy bucket_name \<or> \<not> truthy object_key
          then except_Exception (ValueError ''Invalid event format'') w
          else
            (case update_item dynamodb (visit_request table_name) w of
               (Inl e, w1) \<Rightarrow> except_Exception e w1
             | (Inr response, w1) \<Rightarrow>
                 (case new_count_of response of
                    Inl e \<Rightarrow> except_Exception e w1
                  | Inr new_count \<Rightarrow>
                      (\<lparr>statusCode = 200,
                        body = json_dumps [(''message'', ''Visit count updated successfully''),
                                           (''count'', new_count)]\<rparr>,
                       print ''made few changes using the github actions''
                         (print (''Updated visit count: '' @ new_count) w1)))))"

section \<open>The store\<close>

text \<open>Decimal digits of a number, as the store writes and reads them in \<^verbatim>\<open>{"N": ...}\<close>.\<close>

function string_of_nat :: "nat \<Rightarrow> string" where
  "string_of_nat n =
     (if n < 10 then [''0123456789'' ! n]
      else string_of_nat (n div 10) @ [''0123456789'' ! (n mod 10)])"
  by pat_completeness auto
termination
  by (relation "measure (\<lambda>n. n)") auto

declare string_of_nat.simps [simp del]

definition digit_of :: "char \<Rightarrow> nat option" where
  "digit_of c =
     (if 48 \<le> (of_char c :: nat) \<and> (of_char c :: nat) \<le> 57 then Some (of_char c - 48) else None)"

fun nat_of_digits :: "nat \<Rightarrow> string \<Rightarrow> nat option" where
  "nat_of_digits acc [] = Some acc"
| "nat_of_digits acc (c # cs) =
     (case digit_of c of None \<Rightarrow> None | Some d \<Rightarrow> nat_of_digits (10 * acc + d) cs)"

definition nat_of_string :: "string \<Rightarrow> nat option" where
  "nat_of_string s = (if s = [] then None else nat_of_digits 0 s)"

text \<open>The words of an update expression, separated by blanks.\<close>

fun tokens :: "string \<Rightarrow> string \<Rightarrow> string list" where
  "tokens w [] = (if w = [] then [] else [w])"
| "tokens w (c # cs) =
     (if c = CHR '' '' then (if w = [] then tokens [] cs else w # tokens [] cs)
      else tokens (w @ [c]) cs)"

definition ValidationException :: exn where
  "ValidationException =
     ClientError ''An error occurred (ValidationException) when calling the UpdateItem operation''"

text \<open>
  Modelled from the spec: the key-value store and its atomic update/add operation, which
  the handler reaches through the SDK client and which is no code of this repository.
  The operation is parameterized by the table identifier, the primary key, an additive
  update expression on one attribute and the request to return the post-update values. It
  is one indivisible step: it adds the increment to the stored number, creating the record
  and initialising the attribute when missing, and answers with the new value. The call can
  also fail (store unavailable, permission denied, malformed request) with an error text;
  \<open>fault\<close> is that text when the failure comes from outside the request, and a failed
  call writes nothing.
\<close>

definition atomic_add :: "string option \<Rightarrow> client" where
  "atomic_add fault req st =
     (case fault of
        Some e \<Rightarrow> (Inl (ClientError e), st)
      | None \<Rightarrow>
          (case (tokens [] (UpdateExpression req), Key req) of
             ([''ADD'', name, val], [(''id'', S k)]) \<Rightarrow>
               (case (map_of (ExpressionAttributeNames req) name,
                      map_of (ExpressionAttributeValues req) val) of
                  (Some attr, Some (N digits)) \<Rightarrow>
                    (case nat_of_string digits of
                       None \<Rightarrow> (Inl ValidationException, st)
                     | Some inc \<Rightarrow>
                         (let it = (case st (TableName req) k of None \<Rightarrow> Map.empty | Some i \<Rightarrow> i)
                          in case it attr of
                               Some (SV s) \<Rightarrow> (Inl ValidationException, st)
                             | old \<Rightarrow>
                                 (let new = (case old of Some (NV c) \<Rightarrow> c | _ \<Rightarrow> 0) + inc
                                  in (Inr \<lparr>Attributes =
                                             (if ReturnValues req = ''UPDATED_NEW''
                                              then Some [(attr, N (string_of_nat new))]
                                              else None)\<rparr>,
                                      st(TableName req := (st (TableName req))(k \<mapsto> it(attr \<mapsto> NV new)))))))
                | _ \<Rightarrow> (Inl ValidationException, st))
           | _ \<Rightarrow> (Inl ValidationException, st)))"

text \<open>The counter record's \<^verbatim>\<open>count\<close> attribute as the store holds it, and its value.\<close>

definition stored_count :: "string \<Rightarrow> store \<Rightarrow> stored option" where
  "stored_count table_name st =
     (case st table_name ''visit_count'' of None \<Rightarrow> None | Some it \<Rightarrow> it ''count'')"

definition count :: "string \<Rightarrow> store \<Rightarrow> nat" where
  "count table_name st = (case stored_count table_name st of Some (NV c) \<Rightarrow> c | _ \<Rightarrow> 0)"

section \<open>Events, results and stores, as the specification speaks of them\<close>

text \<open>
  The value an event holds at \<^verbatim>\<open>detail.requestParameters.<name>\<close>, if it holds one: every
  step of the path has to be a mapping that has the next key.
\<close>

definition leaf :: "py \<Rightarrow> string \<Rightarrow> py option" where
  "leaf event name =
     (case event of
        PDict ev \<Rightarrow>
          (case map_of ev ''detail'' of
             Some (PDict d) \<Rightarrow>
               (case map_of d ''requestParameters'' of
                  Some (PDict rp) \<Rightarrow> map_of rp name
                | _ \<Rightarrow> None)
           | _ \<Rightarrow> None)
      | _ \<Rightarrow> None)"

text \<open>
  A field of a value, if the value is a mapping that has it, and what an event holds at
  \<^verbatim>\<open>detail.requestParameters\<close>. A field is missing when there is none.
\<close>

definition field :: "py \<Rightarrow> string \<Rightarrow> py option" where
  "field v k = (case v of PDict kvs \<Rightarrow> map_of kvs k | _ \<Rightarrow> None)"

definition parameters_field :: "py \<Rightarrow> py option" where
  "parameters_field event =
     (case field event ''detail'' of None \<Rightarrow> None | Some d \<Rightarrow> field d ''requestParameters'')"

text \<open>The message of the \<^verbatim>\<open>AttributeError\<close> of \<^verbatim>\<open>.get\<close> on a value whose type has the name \<open>t\<close>.\<close>

definition no_get_text :: "string \<Rightarrow> string" where
  "no_get_text t = repr_str t @ '' object has no attribute '' @ repr_str ''get''"

text \<open>
  An event of the trigger's shape: a mapping whose \<^verbatim>\<open>detail\<close>, where present, is a mapping
  whose \<^verbatim>\<open>requestParameters\<close>, where present, is a mapping. On these no \<^verbatim>\<open>.get\<close> raises.
\<close>

definition well_shaped :: "py \<Rightarrow> bool" where
  "well_shaped event =
     (case event of
        PDict ev \<Rightarrow>
          (case map_of ev ''detail'' of
             None \<Rightarrow> True
           | Some (PDict d) \<Rightarrow>
               (case map_of d ''requestParameters'' of
                  None \<Rightarrow> True
                | Some (PDict rp) \<Rightarrow> True
                | Some _ \<Rightarrow> False)
           | Some _ \<Rightarrow> False)
      | _ \<Rightarrow> False)"

text \<open>What \<^verbatim>\<open>.get(name)\<close> returns for a leaf: its value, or \<^verbatim>\<open>None\<close> when there is none.\<close>

definition or_None :: "py option \<Rightarrow> py" where
  "or_None v = (case v of None \<Rightarrow> PNone | Some x \<Rightarrow> x)"

text \<open>A leaf that is missing or the empty string; a leaf that is a non-empty string.\<close>

definition missing_or_empty :: "py option \<Rightarrow> bool" where
  "missing_or_empty v = (v = None \<or> v = Some (PStr []))"

definition nonempty_str :: "py option \<Rightarrow> bool" where
  "nonempty_str v = (case v of Some (PStr s) \<Rightarrow> s \<noteq> [] | _ \<Rightarrow> False)"

definition valid_event :: "py \<Rightarrow> bool" where
  "valid_event event =
     (nonempty_str (leaf event ''bucketName'') \<and> nonempty_str (leaf event ''key''))"

text \<open>The 500 result with a given error text, and the one of the validation failure.\<close>

definition failed_result :: "string \<Rightarrow> result" where
  "failed_result text =
     \<lparr>statusCode = 500,
      body = json_dumps [(''message'', ''Error updating visit count''), (''error'', text)]\<rparr>"

definition invalid_result :: result where
  "invalid_result =
     \<lparr>statusCode = 500,
      body = json_dumps [(''message'', ''Error updating visit count''),
                         (''error'', ''Invalid event format'')]\<rparr>"

text \<open>
  The store after one more visit is counted: the counter record exists and its \<^verbatim>\<open>count\<close>
  is one higher; nothing else differs. The count can be added to when the attribute is
  absent or a number. \<open>attribute\<close> reads any attribute of any record.
\<close>

definition bump :: "string \<Rightarrow> store \<Rightarrow> store" where
  "bump table_name st =
     st(table_name := (st table_name)(''visit_count'' \<mapsto>
        (case st table_name ''visit_count'' of None \<Rightarrow> Map.empty | Some i \<Rightarrow> i)
          (''count'' \<mapsto> NV (count table_name st + 1))))"

definition numeric_count :: "string \<Rightarrow> store \<Rightarrow> bool" where
  "numeric_count table_name st =
     (case stored_count table_name st of Some (SV s) \<Rightarrow> False | _ \<Rightarrow> True)"

definition attribute :: "store \<Rightarrow> string \<Rightarrow> string \<Rightarrow> string \<Rightarrow> stored option" where
  "attribute st table_name k a = (case st table_name k of None \<Rightarrow> None | Some it \<Rightarrow> it a)"

text \<open>
  Concrete inputs: an empty store, a store where the counter stands at 7 beside another
  attribute and another record, the event of an object put into a bucket, and a client
  whose every call fails.
\<close>

definition visits0 :: world where
  "visits0 = \<lparr>ddb = (\<lambda>t. Map.empty), stdout = [], issued = []\<rparr>"

definition visits7 :: world where
  "visits7 =
     \<lparr>ddb = (\<lambda>t. Map.empty)(''visits'' :=
               [''visit_count'' \<mapsto> [''count'' \<mapsto> NV 7, ''owner'' \<mapsto> SV ''site''],
                ''other'' \<mapsto> [''count'' \<mapsto> NV 3]]),
      stdout = [], issued = []\<rparr>"

definition put_event :: py where
  "put_event = PDict [(''detail'', PDict [(''requestParameters'',
                 PDict [(''bucketName'', PStr ''b''), (''key'', PStr ''k'')])])]"

definition outage :: client where
  "outage req st = (Inl (ClientError ''store unavailable''), st)"

section \<open>Concurrent invocations\<close>

text \<open>
  Invocations running side by side. The handler is cut at its one call of the store: the
  part before it (lines 11 to 28), the call itself, which the store performs as one
  indivisible step, and the part after it (lines 30 to 46). The standard output of an
  invocation is its own and is left out here.
\<close>

definition before_call :: "string \<Rightarrow> py \<Rightarrow> exn + update_request" where
  "before_call table_name event =
     (case object_details event of
        Inl e \<Rightarrow> Inl e
      | Inr (bucket_name, object_key) \<Rightarrow>
          if \<not> truthy bucket_name \<or> \<not> truthy object_key
          then Inl (ValueError ''Invalid event format'')
          else Inr (visit_request table_name))"

definition after_call :: "exn + update_response \<Rightarrow> result" where
  "after_call answer =
     (case answer of
        Inl e \<Rightarrow> failed_result (str_exn e)
      | Inr response \<Rightarrow>
          (case new_count_of response of
             Inl e \<Rightarrow> failed_result (str_exn e)
           | Inr new_count \<Rightarrow>
               \<lparr>statusCode = 200,
                body = json_dumps [(''message'', ''Visit count updated successfully''),
                                   (''count'', new_count)]\<rparr>))"

text \<open>
  Where an invocation stands: it has received its event, it is about to call the store, the
  store has answered, or the handler has returned.
\<close>

datatype invocation =
    Received py
  | Calling update_request
  | Answered "exn + update_response"
  | Returned result

definition advance :: "client \<Rightarrow> string \<Rightarrow> invocation \<Rightarrow> store \<Rightarrow> invocation \<times> store" where
  "advance dynamodb table_name job st =
     (case job of
        Received event \<Rightarrow>
          (case before_call table_name event of
             Inl e \<Rightarrow> (Returned (failed_result (str_exn e)), st)
           | Inr req \<Rightarrow> (Calling req, st))
      | Calling req \<Rightarrow> (case dynamodb req st of (answer, st') \<Rightarrow> (Answered answer, st'))
      | Answered answer \<Rightarrow> (Returned (after_call answer), st)
      | Returned r \<Rightarrow> (Returned r, st))"

text \<open>
  An interleaving is a schedule: the list of the invocations that take the next step, in
  order. All invocations share the one store.
\<close>

fun run :: "client \<Rightarrow> string \<Rightarrow> nat list \<Rightarrow> invocation list \<times> store \<Rightarrow> invocation list \<times> store" where
  "run dynamodb table_name [] s = s"
| "run dynamodb table_name (i # schedule) (invs, st) =
     (if i < length invs
      then (case advance dynamodb table_name (invs ! i) st of
              (job, st') \<Rightarrow> run dynamodb table_name schedule (invs[i := job], st'))
      else run dynamodb table_name schedule (invs, st))"

text \<open>
  For the count of what the store has been asked: an invocation that has returned, the
  number of store calls an invocation has behind it, and an invocation of a valid event
  that is where the handler's code puts it.
\<close>

definition returned :: "invocation \<Rightarrow> bool" where
  "returned job = (case job of Returned r \<Rightarrow> True | _ \<Rightarrow> False)"

definition called :: "invocation \<Rightarrow> nat" where
  "called job = (case job of Received event \<Rightarrow> 0 | Calling req \<Rightarrow> 0 | _ \<Rightarrow> 1)"

definition on_track :: "string \<Rightarrow> invocation \<Rightarrow> bool" where
  "on_track table_name job =
     (case job of
        Received event \<Rightarrow> valid_event event
      | Calling req \<Rightarrow> req = visit_request table_name
      | _ \<Rightarrow> True)"

text \<open>How far an invocation has come, counted in steps.\<close>

definition stage :: "invocation \<Rightarrow> nat" where
  "stage job = (case job of Received event \<Rightarrow> 0 | Calling req \<Rightarrow> 1 | Answered answer \<Rightarrow> 2 | Returned r \<Rightarrow> 3)"

text \<open>The handler invoked on the events one after the other, each in the world the last one left.\<close>

definition in_sequence :: "client \<Rightarrow> string \<Rightarrow> 'c \<Rightarrow> py list \<Rightarrow> world \<Rightarrow> world" where
  "in_sequence dynamodb table_name context events w =
     foldl (\<lambda>w event. snd (handler dynamodb table_name event context w)) w events"

section \<open>Decoding what was encoded\<close>

lemma hex_all: "\<forall>n\<in>{0..<16::nat}. hex_val (hex_digit n) = Some n"
  by code_simp

lemma hex_val_hex_digit: "n < 16 \<Longrightarrow> hex_val (hex_digit n) = Some n"
  using hex_all by simp

lemma of_char_lt_256: "(of_char c :: nat) < 256"
  by (cases c) simp

lemma scan_escape_char:
  "scan_string Plain (escape_char c @ rest) = cons_result c (scan_string Plain rest)"
proof -
  let ?n = "of_char c :: nat"
  have n: "?n < 256" by (rule of_char_lt_256)
  then have "?n div 16 < 16" by (simp add: div_less_iff_less_mult)
  then have hi: "hex_val (hex_digit (?n div 16)) = Some (?n div 16)"
    by (rule hex_val_hex_digit)
  have lo: "hex_val (hex_digit ?n) = Some (?n mod 16)"
    using hex_val_hex_digit [of "?n mod 16"] by (simp add: hex_digit_def)
  have rt: "char_of (16 * (?n div 16) + ?n mod 16) = c"
    by simp
  have sm: "16 * (?n div 16) + ?n mod 16 < 256"
    using n by simp
  have z: "hex_val CHR ''0'' = Some 0" by (simp add: hex_val_def)
  show ?thesis
  proof (cases "c \<in> set [CHR 0x22, CHR 0x5C, CHR 0x0A, CHR 0x0D, CHR 0x09, CHR 0x08, CHR 0x0C]")
    case True
    then show ?thesis
      by (auto simp: escape_char_def simple_escape_def)
  next
    case False
    show ?thesis
    proof (cases "32 \<le> ?n \<and> ?n \<le> 126")
      case True
      with False show ?thesis by (simp add: escape_char_def)
    next
      case False
      with \<open>c \<notin> set _\<close> have e: "escape_char c = [CHR 0x5C, CHR ''u'', CHR ''0'', CHR ''0'',
            hex_digit (?n div 16), hex_digit ?n]"
        by (simp add: escape_char_def)
      show ?thesis
        by (simp add: e z hi lo sm rt del: mult_div_mod_eq div_mult_mod_eq)
    qed
  qed
qed

lemma scan_string_escaped:
  "scan_string Plain (concat (map escape_char s) @ CHR 0x22 # rest) = Some (s, rest)"
  by (induction s) (simp_all add: scan_escape_char cons_result_def)

lemma parse_json_string: "parse_string (json_string s @ rest) = Some (s, rest)"
  by (simp add: parse_string_def json_string_def scan_string_escaped)

lemma parse_json_member:
  "parse_member (json_string k @ '': '' @ json_string v @ rest) = Some ((k, v), rest)"
  by (simp add: parse_member_def parse_json_string)

lemma parse_json_members:
  "kvs \<noteq> [] \<Longrightarrow> length kvs \<le> n \<Longrightarrow> parse_members n (json_members kvs @ ''}'') = Some kvs"
proof (induction kvs arbitrary: n rule: json_members.induct)
  case 1
  then show ?case by simp
next
  case (2 k v)
  then obtain m where "n = Suc m" by (cases n) auto
  with parse_json_member [of k v "''}''"] show ?case by simp
next
  case (3 k v kv kvs)
  then obtain m where n: "n = Suc m" and m: "length (kv # kvs) \<le> m" by (cases n) auto
  have ih: "parse_members m (json_members (kv # kvs) @ ''}'') = Some (kv # kvs)"
    using m by (intro "3.IH") simp
  have pm: "parse_member (json_members ((k, v) # kv # kvs) @ ''}'')
          = Some ((k, v), '', '' @ json_members (kv # kvs) @ ''}'')"
    using parse_json_member [of k v "'', '' @ json_members (kv # kvs) @ ''}''"] by simp
  show ?case
    unfolding n by (simp add: pm ih del: json_members.simps)
qed

lemma length_json_members: "length kvs \<le> length (json_members kvs)"
  by (induction kvs rule: json_members.induct) (simp_all add: json_string_def)

lemma json_members_not_brace: "kvs \<noteq> [] \<Longrightarrow> json_members kvs @ ''}'' \<noteq> ''}''"
  by (cases kvs rule: json_members.cases) (simp_all add: json_string_def)

lemma json_loads_dumps: "json_loads (json_dumps kvs) = Some kvs"
proof (cases "kvs = []")
  case True
  then show ?thesis by (simp add: json_loads_def json_dumps_def)
next
  case False
  have "length kvs \<le> length (json_members kvs @ ''}'')"
    using length_json_members [of kvs] by simp
  with False have "parse_members (length (json_members kvs @ ''}'')) (json_members kvs @ ''}'') = Some kvs"
    by (intro parse_json_members)
  with json_members_not_brace [OF False] show ?thesis
    by (simp add: json_loads_def json_dumps_def)
qed

section \<open>What the handler does on each path\<close>

lemma object_details_well_shaped:
  "well_shaped event \<Longrightarrow>
   object_details event = Inr (or_None (leaf event ''bucketName''), or_None (leaf event ''key''))"
  by (auto simp: well_shaped_def object_details_def leaf_def or_None_def
           split: py.splits option.splits)

lemma leaf_well_shaped: "leaf event name = Some v \<Longrightarrow> well_shaped event"
  by (auto simp: well_shaped_def leaf_def split: py.splits option.splits)

lemma object_details_error:
  "\<not> well_shaped event \<Longrightarrow> \<exists>m. object_details event = Inl (AttributeError m)"
  by (auto simp: well_shaped_def object_details_def split: py.splits option.splits)

lemma handler_raised:
  "object_details event = Inl e \<Longrightarrow> handler dynamodb table_name event context w = except_Exception e w"
  by (simp add: handler_def)

lemma handler_invalid:
  "object_details event = Inr (b, k) \<Longrightarrow> \<not> truthy b \<or> \<not> truthy k \<Longrightarrow>
   handler dynamodb table_name event context w =
     except_Exception (ValueError ''Invalid event format'') w"
  by (auto simp: handler_def)

lemma handler_store_raised:
  "object_details event = Inr (b, k) \<Longrightarrow> truthy b \<Longrightarrow> truthy k \<Longrightarrow>
   dynamodb (visit_request table_name) (ddb w) = (Inl e, st) \<Longrightarrow>
   handler dynamodb table_name event context w =
     except_Exception e (w\<lparr>ddb := st, issued := issued w @ [visit_request table_name]\<rparr>)"
  by (simp add: handler_def update_item_def)

lemma handler_store_answered:
  "object_details event = Inr (b, k) \<Longrightarrow> truthy b \<Longrightarrow> truthy k \<Longrightarrow>
   dynamodb (visit_request table_name) (ddb w) = (Inr response, st) \<Longrightarrow>
   handler dynamodb table_name event context w =
     (case new_count_of response of
        Inl e \<Rightarrow> except_Exception e (w\<lparr>ddb := st, issued := issued w @ [visit_request table_name]\<rparr>)
      | Inr new_count \<Rightarrow>
          (\<lparr>statusCode = 200,
            body = json_dumps [(''message'', ''Visit count updated successfully''),
                               (''count'', new_count)]\<rparr>,
           print ''made few changes using the github actions''
             (print (''Updated visit count: '' @ new_count)
                (w\<lparr>ddb := st, issued := issued w @ [visit_request table_name]\<rparr>))))"
  by (simp add: handler_def update_item_def)

lemma nat_of_string_1: "nat_of_string ''1'' = Some 1"
  by (simp add: nat_of_string_def digit_of_def)

lemma atomic_add_fault: "atomic_add (Some e) req st = (Inl (ClientError e), st)"
  by (simp add: atomic_add_def)

lemma atomic_add_text:
  assumes "stored_count table_name st = Some (SV s)"
  shows "atomic_add None (visit_request table_name) st = (Inl ValidationException, st)"
proof -
  from assms obtain it where it: "st table_name ''visit_count'' = Some it" "it ''count'' = Some (SV s)"
    by (auto simp: stored_count_def split: option.splits)
  then show ?thesis
    by (simp add: atomic_add_def visit_request_def nat_of_string_1)
qed

lemma atomic_add_number:
  assumes "\<And>s. stored_count table_name st \<noteq> Some (SV s)"
  shows "atomic_add None (visit_request table_name) st =
     (Inr \<lparr>Attributes = Some [(''count'', N (string_of_nat (count table_name st + 1)))]\<rparr>,
      bump table_name st)"
proof (cases "st table_name ''visit_count''")
  case None
  then show ?thesis
    by (simp add: atomic_add_def visit_request_def nat_of_string_1 stored_count_def count_def
                  bump_def)
next
  case (Some it)
  show ?thesis
  proof (cases "it ''count''")
    case None
    with Some show ?thesis
      by (simp add: atomic_add_def visit_request_def nat_of_string_1 stored_count_def count_def
                    bump_def)
  next
    case (Some v)
    note v = this
    show ?thesis
    proof (cases v)
      case (SV s)
      with v \<open>st table_name ''visit_count'' = Some it\<close> assms [of s] show ?thesis
        by (simp add: stored_count_def)
    next
      case (NV c)
      with v \<open>st table_name ''visit_count'' = Some it\<close> show ?thesis
        by (simp add: atomic_add_def visit_request_def nat_of_string_1 stored_count_def count_def
                      bump_def)
    qed
  qed
qed

lemma count_bump: "count table_name (bump table_name st) = count table_name st + 1"
  by (simp add: count_def stored_count_def bump_def)

lemma numeric_countD: "numeric_count table_name st \<Longrightarrow> stored_count table_name st \<noteq> Some (SV s)"
  by (auto simp: numeric_count_def)

lemma ddb_except [simp]: "ddb (snd (except_Exception e w)) = ddb w"
  by (simp add: except_Exception_def print_def)

lemma issued_except [simp]: "issued (snd (except_Exception e w)) = issued w"
  by (simp add: except_Exception_def print_def)

lemma fst_except [simp]:
  "fst (except_Exception e w) =
     \<lparr>statusCode = 500,
      body = json_dumps [(''message'', ''Error updating visit count''), (''error'', str_exn e)]\<rparr>"
  by (simp add: except_Exception_def)

lemma truthy_leaf: "v = Some (PStr b) \<Longrightarrow> b \<noteq> [] \<Longrightarrow> truthy (or_None v)"
  by (simp add: or_None_def)

lemma handler_counted:
  assumes "object_details event = Inr (b, k)" "truthy b" "truthy k"
      and "numeric_count table_name (ddb w)"
  shows "handler (atomic_add None) table_name event context w =
     (\<lparr>statusCode = 200,
       body = json_dumps [(''message'', ''Visit count updated successfully''),
                          (''count'', string_of_nat (count table_name (ddb w) + 1))]\<rparr>,
      print ''made few changes using the github actions''
        (print (''Updated visit count: '' @ string_of_nat (count table_name (ddb w) + 1))
           (w\<lparr>ddb := bump table_name (ddb w),
              issued := issued w @ [visit_request table_name]\<rparr>)))"
proof -
  have "atomic_add None (visit_request table_name) (ddb w) =
     (Inr \<lparr>Attributes = Some [(''count'', N (string_of_nat (count table_name (ddb w) + 1)))]\<rparr>,
      bump table_name (ddb w))"
    using assms(4) by (intro atomic_add_number) (simp add: numeric_countD)
  then have "handler (atomic_add None) table_name event context w =
     (case new_count_of \<lparr>Attributes = Some [(''count'', N (string_of_nat (count table_name (ddb w) + 1)))]\<rparr> of
        Inl e \<Rightarrow> except_Exception e (w\<lparr>ddb := bump table_name (ddb w), issued := issued w @ [visit_request table_name]\<rparr>)
      | Inr new_count \<Rightarrow>
          (\<lparr>statusCode = 200,
            body = json_dumps [(''message'', ''Visit count updated successfully''),
                               (''count'', new_count)]\<rparr>,
           print ''made few changes using the github actions''
             (print (''Updated visit count: '' @ new_count)
                (w\<lparr>ddb := bump table_name (ddb w), issued := issued w @ [visit_request table_name]\<rparr>))))"
    using assms(1-3) by (rule handler_store_answered [rotated 3])
  then show ?thesis by (simp add: new_count_of_def)
qed

section \<open>The properties of the specification\<close>

text \<open>
  C1. For every event whose \<^verbatim>\<open>detail.requestParameters\<close> carries a non-empty
  \<^verbatim>\<open>bucketName\<close> string and a non-empty \<^verbatim>\<open>key\<close> string, the invocation adds exactly 1 to
  the stored \<^verbatim>\<open>count\<close> and returns status 200 with the body that encodes the success
  message and the decimal text of the new value. The store call is the successful one
  (no fault, and the attribute is absent or a number); its failure is the subject of C4.
\<close>

theorem valid_event_increments_count:
  assumes "leaf event ''bucketName'' = Some (PStr b)" and "b \<noteq> []"
      and "leaf event ''key'' = Some (PStr k)" and "k \<noteq> []"
      and "numeric_count table_name (ddb w)"
  shows "count table_name (ddb (snd (handler (atomic_add None) table_name event context w)))
           = count table_name (ddb w) + 1
       \<and> fst (handler (atomic_add None) table_name event context w) =
           \<lparr>statusCode = 200,
            body = json_dumps [(''message'', ''Visit count updated successfully''),
                               (''count'', string_of_nat (count table_name (ddb w) + 1))]\<rparr>
       \<and> json_loads (body (fst (handler (atomic_add None) table_name event context w))) =
           Some [(''message'', ''Visit count updated successfully''),
                 (''count'', string_of_nat (count table_name (ddb w) + 1))]"
proof -
  have ws: "well_shaped event" using assms(1) by (rule leaf_well_shaped)
  have tb: "truthy (or_None (leaf event ''bucketName''))" using assms(1,2) by (rule truthy_leaf)
  have tk: "truthy (or_None (leaf event ''key''))" using assms(3,4) by (rule truthy_leaf)
  show ?thesis
    by (simp add: handler_counted [OF object_details_well_shaped [OF ws] tb tk assms(5)]
                  print_def count_bump json_loads_dumps)
qed

theorem valid_event_increments_count_witness:
  "count ''visits'' (ddb visits0) = 0
   \<and> count ''visits'' (ddb (snd (handler (atomic_add None) ''visits'' put_event () visits0))) = 1
   \<and> fst (handler (atomic_add None) ''visits'' put_event () visits0) =
       \<lparr>statusCode = 200,
        body = json_dumps [(''message'', ''Visit count updated successfully''), (''count'', ''1'')]\<rparr>
   \<and> json_loads (body (fst (handler (atomic_add None) ''visits'' put_event () visits0))) =
       Some [(''message'', ''Visit count updated successfully''), (''count'', ''1'')]"
proof -
  have c0: "count ''visits'' (ddb visits0) = 0"
    by (simp add: count_def stored_count_def visits0_def)
  have n0: "numeric_count ''visits'' (ddb visits0)"
    by (simp add: numeric_count_def stored_count_def visits0_def)
  have b: "leaf put_event ''bucketName'' = Some (PStr ''b'')"
    by (simp add: leaf_def put_event_def)
  have k: "leaf put_event ''key'' = Some (PStr ''k'')"
    by (simp add: leaf_def put_event_def)
  have one: "string_of_nat 1 = ''1''"
    by (simp add: string_of_nat.simps)
  from valid_event_increments_count [OF b _ k _ n0, of "()"] c0 one
  show ?thesis by (simp add: json_loads_dumps)
qed

lemma missing_or_empty_falsy: "missing_or_empty v \<Longrightarrow> \<not> truthy (or_None v)"
  by (auto simp: missing_or_empty_def or_None_def)

lemma handler_missing_leaf:
  assumes "well_shaped event"
      and "missing_or_empty (leaf event ''bucketName'') \<or> missing_or_empty (leaf event ''key'')"
  shows "handler dynamodb table_name event context w =
           except_Exception (ValueError ''Invalid event format'') w"
proof -
  have "\<not> truthy (or_None (leaf event ''bucketName'')) \<or> \<not> truthy (or_None (leaf event ''key''))"
    using assms(2) by (auto dest: missing_or_empty_falsy)
  with object_details_well_shaped [OF assms(1)] show ?thesis
    by (rule handler_invalid)
qed

lemma py_get_cases:
  "(\<exists>kvs. v = PDict kvs) \<or>
   (\<exists>t \<in> set [''NoneType'', ''bool'', ''int'', ''float'', ''str'', ''list''].
      \<forall>k d. py_get v k d = Inl (AttributeError (no_get_text t)))"
  by (cases v) (simp_all add: no_get_text_def)

lemma object_details_error_text:
  assumes "\<not> well_shaped event"
  shows "\<exists>t \<in> set [''NoneType'', ''bool'', ''int'', ''float'', ''str'', ''list''].
           object_details event = Inl (AttributeError (no_get_text t))"
proof -
  let ?T = "set [''NoneType'', ''bool'', ''int'', ''float'', ''str'', ''list'']"
  from py_get_cases [of event] show ?thesis
  proof
    assume "\<exists>t \<in> ?T. \<forall>k d. py_get event k d = Inl (AttributeError (no_get_text t))"
    then obtain t where "t \<in> ?T" "\<forall>k d. py_get event k d = Inl (AttributeError (no_get_text t))"
      by blast
    then have "t \<in> ?T \<and> object_details event = Inl (AttributeError (no_get_text t))"
      by (simp add: object_details_def)
    then show ?thesis by blast
  next
    assume "\<exists>kvs. event = PDict kvs"
    then obtain ev where ev: "event = PDict ev" ..
    obtain s3 where s3: "py_get event ''detail'' (PDict []) = Inr s3"
      using ev by simp
    from py_get_cases [of s3] show ?thesis
    proof
      assume "\<exists>t \<in> ?T. \<forall>k d. py_get s3 k d = Inl (AttributeError (no_get_text t))"
      then obtain t where "t \<in> ?T" "\<forall>k d. py_get s3 k d = Inl (AttributeError (no_get_text t))"
        by blast
      then have "t \<in> ?T \<and> object_details event = Inl (AttributeError (no_get_text t))"
        using s3 by (simp add: object_details_def)
      then show ?thesis by blast
    next
      assume "\<exists>kvs. s3 = PDict kvs"
      then obtain d where d: "s3 = PDict d" ..
      obtain rp where rp: "py_get s3 ''requestParameters'' (PDict []) = Inr rp"
        using d by simp
      from py_get_cases [of rp] show ?thesis
      proof
        assume "\<exists>t \<in> ?T. \<forall>k d. py_get rp k d = Inl (AttributeError (no_get_text t))"
        then obtain t where "t \<in> ?T" "\<forall>k d. py_get rp k d = Inl (AttributeError (no_get_text t))"
          by blast
        then have "t \<in> ?T \<and> object_details event = Inl (AttributeError (no_get_text t))"
          using s3 rp by (simp add: object_details_def)
        then show ?thesis by blast
      next
        assume "\<exists>kvs. rp = PDict kvs"
        then obtain r where r: "rp = PDict r" ..
        have "well_shaped event"
          using ev d r s3 rp
          by (auto simp: well_shaped_def split: option.splits py.splits)
        with assms show ?thesis by simp
      qed
    qed
  qed
qed

lemma handler_shape_error_text:
  assumes "\<not> well_shaped event"
  shows "\<exists>t \<in> set [''NoneType'', ''bool'', ''int'', ''float'', ''str'', ''list''].
           object_details event = Inl (AttributeError (no_get_text t))
           \<and> handler dynamodb table_name event context w =
               except_Exception (AttributeError (no_get_text t)) w"
proof -
  from object_details_error_text [OF assms] obtain t
    where t: "t \<in> set [''NoneType'', ''bool'', ''int'', ''float'', ''str'', ''list'']"
      and od: "object_details event = Inl (AttributeError (no_get_text t))"
    by blast
  from od have "handler dynamodb table_name event context w =
               except_Exception (AttributeError (no_get_text t)) w"
    by (rule handler_raised)
  with t od show ?thesis by blast
qed

text \<open>
  C2, as amended. For every event in which \<^verbatim>\<open>bucketName\<close> is missing, \<^verbatim>\<open>key\<close> is missing,
  or either is the empty string, the handler returns status 500 and never issues the store
  update, whatever the client would do, so the store is unchanged. When the event, and
  \<^verbatim>\<open>detail\<close> and \<^verbatim>\<open>requestParameters\<close> where present, are mappings, the body decodes to
  the message \<^verbatim>\<open>Error updating visit count\<close> and the error \<^verbatim>\<open>Invalid event format\<close>.
  Otherwise the lookup of lines 11 to 13 raises \<^verbatim>\<open>AttributeError\<close>, and the error is its text:
  that an object of the type of the value that is no mapping has no attribute \<^verbatim>\<open>get\<close>.
\<close>

theorem missing_leaf_rejected:
  assumes "missing_or_empty (leaf event ''bucketName'') \<or> missing_or_empty (leaf event ''key'')"
  shows "statusCode (fst (handler dynamodb table_name event context w)) = 500
       \<and> issued (snd (handler dynamodb table_name event context w)) = issued w
       \<and> ddb (snd (handler dynamodb table_name event context w)) = ddb w
       \<and> (if well_shaped event
          then fst (handler dynamodb table_name event context w) = invalid_result
             \<and> json_loads (body (fst (handler dynamodb table_name event context w))) =
                 Some [(''message'', ''Error updating visit count''),
                       (''error'', ''Invalid event format'')]
          else \<exists>t \<in> set [''NoneType'', ''bool'', ''int'', ''float'', ''str'', ''list''].
                 object_details event = Inl (AttributeError (no_get_text t))
                 \<and> fst (handler dynamodb table_name event context w) = failed_result (no_get_text t)
                 \<and> json_loads (body (fst (handler dynamodb table_name event context w))) =
                     Some [(''message'', ''Error updating visit count''),
                           (''error'', no_get_text t)])"
proof (cases "well_shaped event")
  case True
  have "handler dynamodb table_name event context w =
          except_Exception (ValueError ''Invalid event format'') w"
    using True assms by (rule handler_missing_leaf)
  then show ?thesis using True by (simp add: invalid_result_def json_loads_dumps)
next
  case False
  from handler_shape_error_text [OF False, of dynamodb table_name "context" w] obtain t
    where t: "t \<in> set [''NoneType'', ''bool'', ''int'', ''float'', ''str'', ''list'']"
      and od: "object_details event = Inl (AttributeError (no_get_text t))"
      and h: "handler dynamodb table_name event context w =
               except_Exception (AttributeError (no_get_text t)) w"
    by blast
  have r: "fst (handler dynamodb table_name event context w) = failed_result (no_get_text t)
       \<and> json_loads (body (fst (handler dynamodb table_name event context w))) =
           Some [(''message'', ''Error updating visit count''), (''error'', no_get_text t)]"
    by (simp add: h failed_result_def json_loads_dumps)
  have s: "statusCode (fst (handler dynamodb table_name event context w)) = 500
       \<and> issued (snd (handler dynamodb table_name event context w)) = issued w
       \<and> ddb (snd (handler dynamodb table_name event context w)) = ddb w"
    by (simp add: h)
  from t od r have "\<exists>t \<in> set [''NoneType'', ''bool'', ''int'', ''float'', ''str'', ''list''].
                 object_details event = Inl (AttributeError (no_get_text t))
                 \<and> fst (handler dynamodb table_name event context w) = failed_result (no_get_text t)
                 \<and> json_loads (body (fst (handler dynamodb table_name event context w))) =
                     Some [(''message'', ''Error updating visit count''),
                           (''error'', no_get_text t)]"
    by blast
  with s False show ?thesis by simp
qed

theorem missing_leaf_rejected_witness:
  "missing_or_empty (leaf (PDict [(''detail'', PDict [(''requestParameters'', PDict [])])]) ''bucketName'')
   \<and> well_shaped (PDict [(''detail'', PDict [(''requestParameters'', PDict [])])])
   \<and> fst (handler (atomic_add None) ''visits''
            (PDict [(''detail'', PDict [(''requestParameters'', PDict [])])]) () visits0) = invalid_result
   \<and> json_loads (body (fst (handler (atomic_add None) ''visits''
            (PDict [(''detail'', PDict [(''requestParameters'', PDict [])])]) () visits0))) =
       Some [(''message'', ''Error updating visit count''), (''error'', ''Invalid event format'')]
   \<and> issued (snd (handler (atomic_add None) ''visits''
            (PDict [(''detail'', PDict [(''requestParameters'', PDict [])])]) () visits0)) = []
   \<and> missing_or_empty (leaf (PDict [(''detail'', PDict [(''requestParameters'', PNone)])]) ''bucketName'')
   \<and> \<not> well_shaped (PDict [(''detail'', PDict [(''requestParameters'', PNone)])])
   \<and> fst (handler (atomic_add None) ''visits''
            (PDict [(''detail'', PDict [(''requestParameters'', PNone)])]) () visits0)
       = failed_result (no_get_text ''NoneType'')"
proof -
  let ?e = "PDict [(''detail'', PDict [(''requestParameters'', PDict [])])]"
  let ?n = "PDict [(''detail'', PDict [(''requestParameters'', PNone)])]"
  have m: "missing_or_empty (leaf ?e ''bucketName'')"
    by (simp add: missing_or_empty_def leaf_def)
  have ws: "well_shaped ?e"
    by (simp add: well_shaped_def)
  have i0: "issued visits0 = []"
    by (simp add: visits0_def)
  have mn: "missing_or_empty (leaf ?n ''bucketName'')"
    by (simp add: missing_or_empty_def leaf_def)
  have wn: "\<not> well_shaped ?n"
    by (simp add: well_shaped_def)
  have odn: "object_details ?n = Inl (AttributeError (no_get_text ''NoneType''))"
    by (simp add: object_details_def no_get_text_def)
  note A = missing_leaf_rejected [of ?e "atomic_add None" "''visits''" "()" visits0]
  note B = missing_leaf_rejected [of ?n "atomic_add None" "''visits''" "()" visits0]
  from A m ws i0 have a: "fst (handler (atomic_add None) ''visits'' ?e () visits0) = invalid_result
     \<and> json_loads (body (fst (handler (atomic_add None) ''visits'' ?e () visits0))) =
       Some [(''message'', ''Error updating visit count''), (''error'', ''Invalid event format'')]
     \<and> issued (snd (handler (atomic_add None) ''visits'' ?e () visits0)) = []"
    by (simp add: invalid_result_def json_loads_dumps)
  from B mn wn odn have b: "fst (handler (atomic_add None) ''visits'' ?n () visits0)
       = failed_result (no_get_text ''NoneType'')"
    by auto
  from m ws a mn wn b show ?thesis by blast
qed

text \<open>
  The claim C2 as stated fails where \<^verbatim>\<open>requestParameters\<close> is present and null: the event
  has no \<^verbatim>\<open>bucketName\<close>, and the error field is not \<^verbatim>\<open>Invalid event format\<close>.
\<close>

theorem missing_leaf_error_text_counterexample:
  "missing_or_empty (leaf (PDict [(''detail'', PDict [(''requestParameters'', PNone)])]) ''bucketName'')
   \<and> fst (handler (atomic_add None) ''visits''
            (PDict [(''detail'', PDict [(''requestParameters'', PNone)])]) () visits0) \<noteq> invalid_result
   \<and> fst (handler (atomic_add None) ''visits''
            (PDict [(''detail'', PDict [(''requestParameters'', PNone)])]) () visits0) =
       \<lparr>statusCode = 500,
        body = json_dumps [(''message'', ''Error updating visit count''),
                 (''error'', repr_str ''NoneType'' @ '' object has no attribute '' @ repr_str ''get'')]\<rparr>"
proof -
  let ?e = "PDict [(''detail'', PDict [(''requestParameters'', PNone)])]"
  have m: "missing_or_empty (leaf ?e ''bucketName'')"
    by (simp add: missing_or_empty_def leaf_def)
  have od: "object_details ?e =
      Inl (AttributeError (repr_str ''NoneType'' @ '' object has no attribute '' @ repr_str ''get''))"
    by (simp add: object_details_def)
  have h: "fst (handler (atomic_add None) ''visits'' ?e () visits0) =
       \<lparr>statusCode = 500,
        body = json_dumps [(''message'', ''Error updating visit count''),
                 (''error'', repr_str ''NoneType'' @ '' object has no attribute '' @ repr_str ''get'')]\<rparr>"
    by (simp add: handler_raised [OF od])
  have ne: "json_dumps [(''message'', ''Error updating visit count''),
                 (''error'', repr_str ''NoneType'' @ '' object has no attribute '' @ repr_str ''get'')]
          \<noteq> json_dumps [(''message'', ''Error updating visit count''),
                         (''error'', ''Invalid event format'')]"
    by (simp add: json_dumps_def json_string_def repr_str_def escape_char_def)
  from m h ne show ?thesis by (simp add: invalid_result_def)
qed

lemma valid_leaves:
  assumes "leaf event ''bucketName'' = Some (PStr b)" and "b \<noteq> []"
      and "leaf event ''key'' = Some (PStr k)" and "k \<noteq> []"
  shows "object_details event = Inr (PStr b, PStr k)"
proof -
  have "well_shaped event" using assms(1) by (rule leaf_well_shaped)
  from object_details_well_shaped [OF this] assms(1,3) show ?thesis
    by (simp add: or_None_def)
qed

text \<open>
  C4. For every valid event, if the store's update call fails with an exception whose text
  is \<open>str_exn x\<close>, the handler returns status 500 with that text as the error field, and
  the store is exactly as the failed call left it: the handler sent the one request and
  wrote nothing else.
\<close>

theorem store_failure_reported:
  assumes "leaf event ''bucketName'' = Some (PStr b)" and "b \<noteq> []"
      and "leaf event ''key'' = Some (PStr k)" and "k \<noteq> []"
      and "dynamodb (visit_request table_name) (ddb w) = (Inl x, st)"
  shows "fst (handler dynamodb table_name event context w) = failed_result (str_exn x)
       \<and> json_loads (body (fst (handler dynamodb table_name event context w))) =
           Some [(''message'', ''Error updating visit count''), (''error'', str_exn x)]
       \<and> ddb (snd (handler dynamodb table_name event context w)) = st
       \<and> issued (snd (handler dynamodb table_name event context w)) =
           issued w @ [visit_request table_name]"
proof -
  have od: "object_details event = Inr (PStr b, PStr k)"
    using assms(1-4) by (rule valid_leaves)
  have "handler dynamodb table_name event context w =
          except_Exception x (w\<lparr>ddb := st, issued := issued w @ [visit_request table_name]\<rparr>)"
    using od _ _ assms(5) by (rule handler_store_raised) (simp_all add: assms(2,4))
  then show ?thesis by (simp add: failed_result_def json_loads_dumps)
qed

theorem store_failure_reported_witness:
  "fst (handler outage ''visits'' put_event () visits0) = failed_result ''store unavailable''
   \<and> json_loads (body (fst (handler outage ''visits'' put_event () visits0))) =
       Some [(''message'', ''Error updating visit count''), (''error'', ''store unavailable'')]
   \<and> ddb (snd (handler outage ''visits'' put_event () visits0)) = ddb visits0
   \<and> issued (snd (handler outage ''visits'' put_event () visits0)) = [visit_request ''visits'']"
proof -
  have b: "leaf put_event ''bucketName'' = Some (PStr ''b'')"
    by (simp add: leaf_def put_event_def)
  have k: "leaf put_event ''key'' = Some (PStr ''k'')"
    by (simp add: leaf_def put_event_def)
  have o: "outage (visit_request ''visits'') (ddb visits0) =
             (Inl (ClientError ''store unavailable''), ddb visits0)"
    by (simp add: outage_def)
  have i0: "issued visits0 = []"
    by (simp add: visits0_def)
  from store_failure_reported [where dynamodb = outage and table_name = "''visits''" and w = visits0, OF b _ k _ o, of "()"] i0
  show ?thesis by (simp add: failed_result_def json_loads_dumps)
qed

text \<open>
  C3. For every event and every behaviour of the store client, the handler returns a
  result: its status is 200 or 500 and its body is the text encoding of a structure. No
  exception of the try block leaves the handler, since every one of them is a value that
  the except clause turns into the 500 result.
\<close>

theorem handler_always_answers:
  "(statusCode (fst (handler dynamodb table_name event context w)) = 200
      \<or> statusCode (fst (handler dynamodb table_name event context w)) = 500)
   \<and> (\<exists>kvs. body (fst (handler dynamodb table_name event context w)) = json_dumps kvs
            \<and> json_loads (body (fst (handler dynamodb table_name event context w))) = Some kvs)"
proof (cases "object_details event")
  case (Inl e)
  then show ?thesis by (auto simp: handler_raised json_loads_dumps)
next
  case (Inr bk)
  obtain b k where bk: "bk = (b, k)" by (cases bk)
  show ?thesis
  proof (cases "truthy b \<and> truthy k")
    case False
    with Inr bk have "handler dynamodb table_name event context w =
        except_Exception (ValueError ''Invalid event format'') w"
      by (intro handler_invalid) auto
    then show ?thesis by (auto simp: json_loads_dumps)
  next
    case True
    obtain r st where call: "dynamodb (visit_request table_name) (ddb w) = (r, st)"
      by (cases "dynamodb (visit_request table_name) (ddb w)")
    show ?thesis
    proof (cases r)
      case (Inl e)
      with Inr bk True call have "handler dynamodb table_name event context w =
          except_Exception e (w\<lparr>ddb := st, issued := issued w @ [visit_request table_name]\<rparr>)"
        by (intro handler_store_raised) auto
      then show ?thesis by (auto simp: json_loads_dumps)
    next
      case (Inr response)
      with \<open>object_details event = Inr bk\<close> bk True call
      have h: "handler dynamodb table_name event context w =
         (case new_count_of response of
            Inl e \<Rightarrow> except_Exception e (w\<lparr>ddb := st, issued := issued w @ [visit_request table_name]\<rparr>)
          | Inr new_count \<Rightarrow>
              (\<lparr>statusCode = 200,
                body = json_dumps [(''message'', ''Visit count updated successfully''),
                                   (''count'', new_count)]\<rparr>,
               print ''made few changes using the github actions''
                 (print (''Updated visit count: '' @ new_count)
                    (w\<lparr>ddb := st, issued := issued w @ [visit_request table_name]\<rparr>))))"
        by (intro handler_store_answered) auto
      show ?thesis
        by (cases "new_count_of response") (auto simp: h json_loads_dumps)
    qed
  qed
qed

theorem handler_always_answers_witness:
  "(statusCode (fst (handler outage ''visits'' (PList []) () visits0)) = 200
      \<or> statusCode (fst (handler outage ''visits'' (PList []) () visits0)) = 500)
   \<and> (\<exists>kvs. body (fst (handler outage ''visits'' (PList []) () visits0)) = json_dumps kvs
            \<and> json_loads (body (fst (handler outage ''visits'' (PList []) () visits0))) = Some kvs)"
  by (rule handler_always_answers)

lemma numeric_count_bump: "numeric_count table_name (bump table_name st)"
  by (simp add: numeric_count_def stored_count_def bump_def)

lemma stored_count_bump:
  "stored_count table_name (bump table_name st) = Some (NV (count table_name st + 1))"
  by (simp add: stored_count_def bump_def)

lemma bump_other_record:
  "(t, k) \<noteq> (table_name, ''visit_count'') \<Longrightarrow> bump table_name st t k = st t k"
  by (auto simp: bump_def)

lemma bump_other_attribute:
  "a \<noteq> ''count'' \<Longrightarrow>
   attribute (bump table_name st) table_name ''visit_count'' a =
   attribute st table_name ''visit_count'' a"
  by (simp add: attribute_def bump_def split: option.splits)

lemma handler_store_after:
  "ddb (snd (handler (atomic_add fault) table_name event context w)) = ddb w
   \<or> ddb (snd (handler (atomic_add fault) table_name event context w)) = bump table_name (ddb w)"
proof (cases "object_details event")
  case (Inl e)
  then show ?thesis by (simp add: handler_raised)
next
  case (Inr bk)
  obtain b k where bk: "bk = (b, k)" by (cases bk)
  show ?thesis
  proof (cases "truthy b \<and> truthy k")
    case False
    with Inr bk have "handler (atomic_add fault) table_name event context w =
        except_Exception (ValueError ''Invalid event format'') w"
      by (intro handler_invalid) auto
    then show ?thesis by simp
  next
    case True
    show ?thesis
    proof (cases fault)
      case (Some e)
      have "handler (atomic_add fault) table_name event context w =
          except_Exception (ClientError e) (w\<lparr>ddb := ddb w, issued := issued w @ [visit_request table_name]\<rparr>)"
        using Inr bk True Some by (intro handler_store_raised) (auto simp: atomic_add_fault)
      then show ?thesis by simp
    next
      case None
      show ?thesis
      proof (cases "numeric_count table_name (ddb w)")
        case True
        have "handler (atomic_add None) table_name event context w =
           (\<lparr>statusCode = 200,
             body = json_dumps [(''message'', ''Visit count updated successfully''),
                                (''count'', string_of_nat (count table_name (ddb w) + 1))]\<rparr>,
            print ''made few changes using the github actions''
              (print (''Updated visit count: '' @ string_of_nat (count table_name (ddb w) + 1))
                 (w\<lparr>ddb := bump table_name (ddb w),
                    issued := issued w @ [visit_request table_name]\<rparr>)))"
          using Inr bk \<open>truthy b \<and> truthy k\<close> True by (intro handler_counted) auto
        then show ?thesis using None by (simp add: print_def)
      next
        case False
        then obtain s where "stored_count table_name (ddb w) = Some (SV s)"
          by (auto simp: numeric_count_def split: option.splits stored.splits)
        then have "atomic_add None (visit_request table_name) (ddb w) = (Inl ValidationException, ddb w)"
          by (rule atomic_add_text)
        then have "handler (atomic_add None) table_name event context w =
          except_Exception ValidationException (w\<lparr>ddb := ddb w, issued := issued w @ [visit_request table_name]\<rparr>)"
          using Inr bk \<open>truthy b \<and> truthy k\<close> by (intro handler_store_raised) auto
        then show ?thesis using None by simp
      qed
    qed
  qed
qed

lemma handler_issued_after:
  "issued (snd (handler dynamodb table_name event context w)) = issued w
   \<or> issued (snd (handler dynamodb table_name event context w)) =
       issued w @ [visit_request table_name]"
  by (auto simp: handler_def update_item_def except_Exception_def print_def
           split: sum.splits prod.splits)

text \<open>
  C5. The handler is not idempotent: for every valid event and every initial count, two
  invocations in sequence with the same event, each store call succeeding, leave the
  stored count two higher, not one.
\<close>

theorem twice_counts_twice:
  assumes "leaf event ''bucketName'' = Some (PStr b)" and "b \<noteq> []"
      and "leaf event ''key'' = Some (PStr k)" and "k \<noteq> []"
      and "numeric_count table_name (ddb w)"
  shows "count table_name
           (ddb (snd (handler (atomic_add None) table_name event context
                        (snd (handler (atomic_add None) table_name event context w)))))
           = count table_name (ddb w) + 2
       \<and> count table_name
           (ddb (snd (handler (atomic_add None) table_name event context
                        (snd (handler (atomic_add None) table_name event context w)))))
           \<noteq> count table_name (ddb w) + 1"
proof -
  let ?w1 = "snd (handler (atomic_add None) table_name event context w)"
  have od: "object_details event = Inr (PStr b, PStr k)"
    using assms(1-4) by (rule valid_leaves)
  have tb: "truthy (PStr b)" and tk: "truthy (PStr k)"
    using assms(2,4) by simp_all
  have one: "ddb ?w1 = bump table_name (ddb w)"
    by (simp add: handler_counted [OF od tb tk assms(5)] print_def)
  have n1: "numeric_count table_name (ddb ?w1)"
    by (simp add: one numeric_count_bump)
  have two: "ddb (snd (handler (atomic_add None) table_name event context ?w1))
               = bump table_name (ddb ?w1)"
    by (simp add: handler_counted [OF od tb tk n1] print_def)
  show ?thesis
    by (simp add: two one count_bump)
qed

theorem twice_counts_twice_witness:
  "count ''visits'' (ddb visits7) = 7
   \<and> count ''visits''
        (ddb (snd (handler (atomic_add None) ''visits'' put_event ()
                     (snd (handler (atomic_add None) ''visits'' put_event () visits7))))) = 9"
proof -
  have c7: "count ''visits'' (ddb visits7) = 7"
    by (simp add: count_def stored_count_def visits7_def)
  have n7: "numeric_count ''visits'' (ddb visits7)"
    by (simp add: numeric_count_def stored_count_def visits7_def)
  have b: "leaf put_event ''bucketName'' = Some (PStr ''b'')"
    by (simp add: leaf_def put_event_def)
  have k: "leaf put_event ''key'' = Some (PStr ''k'')"
    by (simp add: leaf_def put_event_def)
  from twice_counts_twice [OF b _ k _ n7, of "()"] c7
  show ?thesis by simp
qed

lemma missing_structure_leaf:
  "field event ''detail'' = None \<or> parameters_field event = None \<Longrightarrow> leaf event name = None"
  by (auto simp: field_def parameters_field_def leaf_def split: py.splits option.splits)

text \<open>
  C8, as amended. For every event in which the \<^verbatim>\<open>detail\<close> field is missing, or
  \<^verbatim>\<open>detail.requestParameters\<close> is missing, the handler returns status 500 without calling
  the store. When the event is a mapping and \<^verbatim>\<open>detail\<close>, where present, is a mapping, each
  missing key defaults to an empty mapping and the handler behaves exactly as for the event
  \<^verbatim>\<open>{detail: {requestParameters: {}}}\<close> with missing leaf fields: the 500 result with
  \<^verbatim>\<open>Invalid event format\<close>. Otherwise the error is the text of the \<^verbatim>\<open>AttributeError\<close> that
  the lookup raised.
\<close>

theorem missing_structure_defaults:
  assumes "field event ''detail'' = None \<or> parameters_field event = None"
  shows "statusCode (fst (handler dynamodb table_name event context w)) = 500
       \<and> issued (snd (handler dynamodb table_name event context w)) = issued w
       \<and> ddb (snd (handler dynamodb table_name event context w)) = ddb w
       \<and> (if well_shaped event
          then handler dynamodb table_name event context w =
                 handler dynamodb table_name
                   (PDict [(''detail'', PDict [(''requestParameters'', PDict [])])]) context w
             \<and> fst (handler dynamodb table_name event context w) = invalid_result
             \<and> json_loads (body (fst (handler dynamodb table_name event context w))) =
                 Some [(''message'', ''Error updating visit count''),
                       (''error'', ''Invalid event format'')]
          else \<exists>t \<in> set [''NoneType'', ''bool'', ''int'', ''float'', ''str'', ''list''].
                 object_details event = Inl (AttributeError (no_get_text t))
                 \<and> fst (handler dynamodb table_name event context w) = failed_result (no_get_text t))"
proof (cases "well_shaped event")
  case True
  let ?z = "PDict [(''detail'', PDict [(''requestParameters'', PDict [])])]"
  have "leaf event ''bucketName'' = None"
    using assms by (rule missing_structure_leaf)
  then have m: "missing_or_empty (leaf event ''bucketName'') \<or> missing_or_empty (leaf event ''key'')"
    by (simp add: missing_or_empty_def)
  have ws0: "well_shaped ?z"
    by (simp add: well_shaped_def)
  have m0: "missing_or_empty (leaf ?z ''bucketName'') \<or> missing_or_empty (leaf ?z ''key'')"
    by (simp add: missing_or_empty_def leaf_def)
  have h: "handler dynamodb table_name event context w =
             except_Exception (ValueError ''Invalid event format'') w"
    using True m by (rule handler_missing_leaf)
  have h0: "handler dynamodb table_name ?z context w =
             except_Exception (ValueError ''Invalid event format'') w"
    using ws0 m0 by (rule handler_missing_leaf)
  show ?thesis
    using True by (simp add: h h0 invalid_result_def json_loads_dumps)
next
  case False
  from handler_shape_error_text [OF False, of dynamodb table_name "context" w] obtain t
    where t: "t \<in> set [''NoneType'', ''bool'', ''int'', ''float'', ''str'', ''list'']"
      and od: "object_details event = Inl (AttributeError (no_get_text t))"
      and h: "handler dynamodb table_name event context w =
               except_Exception (AttributeError (no_get_text t)) w"
    by blast
  have r: "fst (handler dynamodb table_name event context w) = failed_result (no_get_text t)"
    by (simp add: h failed_result_def)
  have s: "statusCode (fst (handler dynamodb table_name event context w)) = 500
       \<and> issued (snd (handler dynamodb table_name event context w)) = issued w
       \<and> ddb (snd (handler dynamodb table_name event context w)) = ddb w"
    by (simp add: h)
  from t od r have "\<exists>t \<in> set [''NoneType'', ''bool'', ''int'', ''float'', ''str'', ''list''].
                 object_details event = Inl (AttributeError (no_get_text t))
                 \<and> fst (handler dynamodb table_name event context w) = failed_result (no_get_text t)"
    by blast
  with s False show ?thesis by simp
qed

theorem missing_structure_defaults_witness:
  "field (PDict []) ''detail'' = None
   \<and> handler (atomic_add None) ''visits'' (PDict []) () visits0 =
       handler (atomic_add None) ''visits''
         (PDict [(''detail'', PDict [(''requestParameters'', PDict [])])]) () visits0
   \<and> fst (handler (atomic_add None) ''visits'' (PDict []) () visits0) = invalid_result
   \<and> issued (snd (handler (atomic_add None) ''visits'' (PDict []) () visits0)) = []
   \<and> parameters_field (PDict [(''detail'', PDict [(''id'', PInt 1)])]) = None
   \<and> fst (handler (atomic_add None) ''visits'' (PDict [(''detail'', PDict [(''id'', PInt 1)])]) () visits0)
       = invalid_result
   \<and> parameters_field (PDict [(''detail'', PStr ''x'')]) = None
   \<and> fst (handler (atomic_add None) ''visits'' (PDict [(''detail'', PStr ''x'')]) () visits0)
       = failed_result (no_get_text ''str'')"
proof -
  let ?a = "PDict []"
  let ?b = "PDict [(''detail'', PDict [(''id'', PInt 1)])]"
  let ?c = "PDict [(''detail'', PStr ''x'')]"
  have fa: "field ?a ''detail'' = None" by (simp add: field_def)
  have fb: "parameters_field ?b = None" by (simp add: parameters_field_def field_def)
  have fc: "parameters_field ?c = None" by (simp add: parameters_field_def field_def)
  have wa: "well_shaped ?a" by (simp add: well_shaped_def)
  have wb: "well_shaped ?b" by (simp add: well_shaped_def)
  have wc: "\<not> well_shaped ?c" by (simp add: well_shaped_def)
  have odc: "object_details ?c = Inl (AttributeError (no_get_text ''str''))"
    by (simp add: object_details_def no_get_text_def)
  have i0: "issued visits0 = []" by (simp add: visits0_def)
  note A = missing_structure_defaults [of ?a "atomic_add None" "''visits''" "()" visits0]
  note B = missing_structure_defaults [of ?b "atomic_add None" "''visits''" "()" visits0]
  note C = missing_structure_defaults [of ?c "atomic_add None" "''visits''" "()" visits0]
  from A fa wa have 1: "handler (atomic_add None) ''visits'' ?a () visits0 =
       handler (atomic_add None) ''visits''
         (PDict [(''detail'', PDict [(''requestParameters'', PDict [])])]) () visits0"
    by metis
  from A fa wa have 2: "fst (handler (atomic_add None) ''visits'' ?a () visits0) = invalid_result"
    by metis
  from A fa i0 have 3: "issued (snd (handler (atomic_add None) ''visits'' ?a () visits0)) = []"
    by metis
  from B fb wb have 4: "fst (handler (atomic_add None) ''visits'' ?b () visits0) = invalid_result"
    by metis
  from C fc wc odc have 5: "fst (handler (atomic_add None) ''visits'' ?c () visits0)
       = failed_result (no_get_text ''str'')"
    by auto
  from fa 1 2 3 fb 4 fc 5 show ?thesis by (intro conjI)
qed

lemma attribute_error_not_invalid:
  "failed_result (no_get_text ''NoneType'') \<noteq> invalid_result"
  by (simp add: failed_result_def invalid_result_def no_get_text_def json_dumps_def
                json_string_def repr_str_def escape_char_def)

text \<open>
  The claim C8 as stated fails where \<^verbatim>\<open>detail\<close> is present and null: the event holds no
  \<^verbatim>\<open>detail.requestParameters\<close>, nothing defaults, and the result is not the one of an
  event with missing leaf fields.
\<close>

theorem missing_structure_error_text_counterexample:
  "field (PDict [(''detail'', PNone)]) ''detail'' = Some PNone
   \<and> parameters_field (PDict [(''detail'', PNone)]) = None
   \<and> fst (handler (atomic_add None) ''visits'' (PDict [(''detail'', PNone)]) () visits0)
       = failed_result (no_get_text ''NoneType'')
   \<and> fst (handler (atomic_add None) ''visits'' (PDict [(''detail'', PNone)]) () visits0)
       \<noteq> invalid_result
   \<and> fst (handler (atomic_add None) ''visits''
            (PDict [(''detail'', PDict [(''requestParameters'', PDict [])])]) () visits0)
       = invalid_result"
proof -
  let ?e = "PDict [(''detail'', PNone)]"
  let ?z = "PDict [(''detail'', PDict [(''requestParameters'', PDict [])])]"
  have f1: "field (PDict [(''detail'', PNone)]) ''detail'' = Some PNone"
    by (simp add: field_def)
  have f2: "parameters_field (PDict [(''detail'', PNone)]) = None"
    by (simp add: parameters_field_def field_def)
  have od: "object_details ?e = Inl (AttributeError (no_get_text ''NoneType''))"
    by (simp add: object_details_def no_get_text_def)
  have h: "fst (handler (atomic_add None) ''visits'' ?e () visits0)
       = failed_result (no_get_text ''NoneType'')"
    by (simp add: handler_raised [OF od] failed_result_def)
  have od0: "object_details ?z = Inr (PNone, PNone)"
    by (simp add: object_details_def)
  have h0: "fst (handler (atomic_add None) ''visits'' ?z () visits0) = invalid_result"
    by (simp add: handler_invalid [OF od0] invalid_result_def)
  from f1 f2 h h0 attribute_error_not_invalid show ?thesis by simp
qed

text \<open>
  C10. The stored count never decreases: for every event, every outcome of the store call
  and every initial count \<open>C\<close>, the count after the invocation is \<open>C\<close> or \<open>C + 1\<close>, and the
  stored attribute is either untouched or the number \<open>C + 1\<close>; no path removes it.
\<close>

theorem count_never_decreases:
  "(count table_name (ddb (snd (handler (atomic_add fault) table_name event context w)))
      = count table_name (ddb w)
    \<and> stored_count table_name (ddb (snd (handler (atomic_add fault) table_name event context w)))
      = stored_count table_name (ddb w))
   \<or> (count table_name (ddb (snd (handler (atomic_add fault) table_name event context w)))
      = count table_name (ddb w) + 1
    \<and> stored_count table_name (ddb (snd (handler (atomic_add fault) table_name event context w)))
      = Some (NV (count table_name (ddb w) + 1)))"
  using handler_store_after [of fault table_name event "context" w]
  by (auto simp: count_bump stored_count_bump)

theorem count_never_decreases_witness:
  "(count ''visits'' (ddb (snd (handler (atomic_add (Some ''throttled'')) ''visits'' put_event () visits7)))
      = count ''visits'' (ddb visits7)
    \<and> stored_count ''visits'' (ddb (snd (handler (atomic_add (Some ''throttled'')) ''visits'' put_event () visits7)))
      = stored_count ''visits'' (ddb visits7))
   \<or> (count ''visits'' (ddb (snd (handler (atomic_add (Some ''throttled'')) ''visits'' put_event () visits7)))
      = count ''visits'' (ddb visits7) + 1
    \<and> stored_count ''visits'' (ddb (snd (handler (atomic_add (Some ''throttled'')) ''visits'' put_event () visits7)))
      = Some (NV (count ''visits'' (ddb visits7) + 1)))"
  by (rule count_never_decreases)

text \<open>
  C9. Every request the handler issues is the one update of the record with primary key
  \<^verbatim>\<open>id = "visit_count"\<close> in the configured table, adding to its \<^verbatim>\<open>count\<close> attribute; an
  invocation issues it once or not at all. On the store, whatever the outcome of the call,
  every other record of every table and every other attribute of the counter record are
  as they were.
\<close>

theorem only_the_counter_is_touched:
  "(issued (snd (handler (atomic_add fault) table_name event context w)) = issued w
      \<or> issued (snd (handler (atomic_add fault) table_name event context w)) =
          issued w @ [visit_request table_name])
   \<and> TableName (visit_request table_name) = table_name
   \<and> Key (visit_request table_name) = [(''id'', S ''visit_count'')]
   \<and> UpdateExpression (visit_request table_name) = ''ADD #count :inc''
   \<and> ExpressionAttributeNames (visit_request table_name) = [(''#count'', ''count'')]
   \<and> (\<forall>t k. (t, k) \<noteq> (table_name, ''visit_count'') \<longrightarrow>
         ddb (snd (handler (atomic_add fault) table_name event context w)) t k = ddb w t k)
   \<and> (\<forall>a. a \<noteq> ''count'' \<longrightarrow>
         attribute (ddb (snd (handler (atomic_add fault) table_name event context w)))
           table_name ''visit_count'' a
         = attribute (ddb w) table_name ''visit_count'' a)"
proof -
  have req: "TableName (visit_request table_name) = table_name
     \<and> Key (visit_request table_name) = [(''id'', S ''visit_count'')]
     \<and> UpdateExpression (visit_request table_name) = ''ADD #count :inc''
     \<and> ExpressionAttributeNames (visit_request table_name) = [(''#count'', ''count'')]"
    by (simp add: visit_request_def)
  have rec: "\<forall>t k. (t, k) \<noteq> (table_name, ''visit_count'') \<longrightarrow>
         ddb (snd (handler (atomic_add fault) table_name event context w)) t k = ddb w t k"
    using handler_store_after [of fault table_name event "context" w]
    by (auto simp: bump_other_record)
  have att: "\<forall>a. a \<noteq> ''count'' \<longrightarrow>
         attribute (ddb (snd (handler (atomic_add fault) table_name event context w)))
           table_name ''visit_count'' a
         = attribute (ddb w) table_name ''visit_count'' a"
    using handler_store_after [of fault table_name event "context" w]
    by (auto simp: bump_other_attribute)
  from handler_issued_after [of "atomic_add fault" table_name event "context" w] req rec att
  show ?thesis by blast
qed

theorem only_the_counter_is_touched_witness:
  "issued (snd (handler (atomic_add None) ''visits'' put_event () visits7)) = [visit_request ''visits'']
   \<and> ddb (snd (handler (atomic_add None) ''visits'' put_event () visits7)) ''visits'' ''other''
       = ddb visits7 ''visits'' ''other''
   \<and> attribute (ddb (snd (handler (atomic_add None) ''visits'' put_event () visits7)))
       ''visits'' ''visit_count'' ''owner'' = Some (SV ''site'')
   \<and> count ''visits'' (ddb (snd (handler (atomic_add None) ''visits'' put_event () visits7))) = 8"
proof -
  let ?w = "snd (handler (atomic_add None) ''visits'' put_event () visits7)"
  have od: "object_details put_event = Inr (PStr ''b'', PStr ''k'')"
    by (simp add: object_details_def put_event_def)
  have n7: "numeric_count ''visits'' (ddb visits7)"
    by (simp add: numeric_count_def stored_count_def visits7_def)
  have c7: "count ''visits'' (ddb visits7) = 7"
    by (simp add: count_def stored_count_def visits7_def)
  have h: "issued ?w = [visit_request ''visits''] \<and> ddb ?w = bump ''visits'' (ddb visits7)"
    by (simp add: handler_counted [OF od _ _ n7] print_def) (simp add: visits7_def)
  have o: "attribute (ddb visits7) ''visits'' ''visit_count'' ''owner'' = Some (SV ''site'')"
    by (simp add: attribute_def visits7_def)
  from only_the_counter_is_touched [of None "''visits''" put_event "()" visits7] h o c7
  show ?thesis by (simp add: count_bump)
qed

lemma nonempty_strD: "nonempty_str v \<Longrightarrow> \<exists>s. v = Some (PStr s) \<and> s \<noteq> []"
  by (auto simp: nonempty_str_def split: option.splits py.splits)

lemma before_call_valid:
  assumes "valid_event event"
  shows "before_call table_name event = Inr (visit_request table_name)"
proof -
  from assms have "nonempty_str (leaf event ''bucketName'')" and "nonempty_str (leaf event ''key'')"
    by (simp_all add: valid_event_def)
  then obtain b k where l: "leaf event ''bucketName'' = Some (PStr b)" "b \<noteq> []"
       "leaf event ''key'' = Some (PStr k)" "k \<noteq> []"
    by (blast dest: nonempty_strD)
  then have "object_details event = Inr (PStr b, PStr k)"
    by (rule valid_leaves)
  with l show ?thesis by (simp add: before_call_def)
qed

lemma advance_keeps:
  assumes "on_track table_name job" and "numeric_count table_name st"
      and "advance (atomic_add None) table_name job st = (job', st')"
  shows "on_track table_name job' \<and> numeric_count table_name st'
       \<and> count table_name st' + called job = count table_name st + called job'"
proof (cases job)
  case (Received event)
  with assms show ?thesis
    by (auto simp: advance_def on_track_def called_def before_call_valid)
next
  case (Calling req)
  with assms(1) have req: "req = visit_request table_name"
    by (simp add: on_track_def)
  have "atomic_add None (visit_request table_name) st =
     (Inr \<lparr>Attributes = Some [(''count'', N (string_of_nat (count table_name st + 1)))]\<rparr>,
      bump table_name st)"
    using assms(2) by (intro atomic_add_number) (simp add: numeric_countD)
  with assms(3) Calling req show ?thesis
    by (auto simp: advance_def on_track_def called_def numeric_count_bump count_bump)
next
  case (Answered answer)
  with assms show ?thesis
    by (auto simp: advance_def on_track_def called_def)
next
  case (Returned r)
  with assms show ?thesis
    by (auto simp: advance_def on_track_def called_def)
qed

lemma sum_called_update:
  assumes "i < length invs"
  shows "sum_list (map called (invs[i := job])) + called (invs ! i)
       = sum_list (map called invs) + called job"
  using assms
proof (induction invs arbitrary: i)
  case Nil
  then show ?case by simp
next
  case (Cons x xs)
  then show ?case by (cases i) auto
qed

lemma all_returned_called:
  "list_all returned invs \<Longrightarrow> sum_list (map called invs) = length invs"
  by (induction invs) (auto simp: returned_def called_def split: invocation.splits)

lemma length_run:
  "run dynamodb table_name schedule (invs, st) = (invs', st') \<Longrightarrow> length invs' = length invs"
proof (induction schedule arbitrary: invs st)
  case Nil
  then show ?case by simp
next
  case (Cons i schedule)
  show ?case
  proof (cases "i < length invs")
    case False
    with Cons.prems have "run dynamodb table_name schedule (invs, st) = (invs', st')"
      by simp
    then show ?thesis by (rule Cons.IH)
  next
    case True
    obtain job st1 where adv: "advance dynamodb table_name (invs ! i) st = (job, st1)"
      by (cases "advance dynamodb table_name (invs ! i) st")
    with Cons.prems True
    have "run dynamodb table_name schedule (invs[i := job], st1) = (invs', st')"
      by simp
    then have "length invs' = length (invs[i := job])" by (rule Cons.IH)
    then show ?thesis by simp
  qed
qed

lemma count_funpow_bump: "count table_name ((bump table_name ^^ k) st) = count table_name st + k"
  by (induction k) (simp_all add: count_bump)

lemma advance_store:
  assumes "on_track table_name job" and "numeric_count table_name st"
      and "advance (atomic_add None) table_name job st = (job', st')"
  shows "\<exists>k. st' = (bump table_name ^^ k) st \<and> called job + k = called job'"
proof (cases job)
  case (Received event)
  with assms have "st' = (bump table_name ^^ 0) st \<and> called job + 0 = called job'"
    by (auto simp: advance_def on_track_def called_def before_call_valid)
  then show ?thesis by blast
next
  case (Calling req)
  with assms(1) have req: "req = visit_request table_name"
    by (simp add: on_track_def)
  have "atomic_add None (visit_request table_name) st =
     (Inr \<lparr>Attributes = Some [(''count'', N (string_of_nat (count table_name st + 1)))]\<rparr>,
      bump table_name st)"
    using assms(2) by (intro atomic_add_number) (simp add: numeric_countD)
  with assms(3) Calling req
  have "st' = (bump table_name ^^ 1) st \<and> called job + 1 = called job'"
    by (auto simp: advance_def called_def)
  then show ?thesis by blast
next
  case (Answered answer)
  with assms have "st' = (bump table_name ^^ 0) st \<and> called job + 0 = called job'"
    by (auto simp: advance_def called_def)
  then show ?thesis by blast
next
  case (Returned r)
  with assms have "st' = (bump table_name ^^ 0) st \<and> called job + 0 = called job'"
    by (auto simp: advance_def called_def)
  then show ?thesis by blast
qed

lemma run_store:
  assumes "list_all (on_track table_name) invs" and "numeric_count table_name st"
      and "run (atomic_add None) table_name schedule (invs, st) = (invs', st')"
  shows "\<exists>k. st' = (bump table_name ^^ k) st
           \<and> sum_list (map called invs) + k = sum_list (map called invs')"
  using assms
proof (induction schedule arbitrary: invs st)
  case Nil
  then have "st' = (bump table_name ^^ 0) st
           \<and> sum_list (map called invs) + 0 = sum_list (map called invs')"
    by simp
  then show ?case by blast
next
  case (Cons i schedule)
  show ?case
  proof (cases "i < length invs")
    case False
    with Cons.prems have "run (atomic_add None) table_name schedule (invs, st) = (invs', st')"
      by simp
    from Cons.IH [OF Cons.prems(1,2) this] show ?thesis .
  next
    case True
    obtain job st1 where adv: "advance (atomic_add None) table_name (invs ! i) st = (job, st1)"
      by (cases "advance (atomic_add None) table_name (invs ! i) st")
    have ot: "on_track table_name (invs ! i)"
      using Cons.prems(1) True by (simp add: list_all_length)
    note ak = advance_keeps [OF ot Cons.prems(2) adv]
    have k: "on_track table_name job" "numeric_count table_name st1"
      using ak by blast+
    from advance_store [OF ot Cons.prems(2) adv] obtain k1
      where k1: "st1 = (bump table_name ^^ k1) st" "called (invs ! i) + k1 = called job"
      by blast
    have all: "list_all (on_track table_name) (invs[i := job])"
      using Cons.prems(1) k(1) by (auto simp: list_all_iff dest: set_update_subset_insert [THEN subsetD])
    have rest: "run (atomic_add None) table_name schedule (invs[i := job], st1) = (invs', st')"
      using Cons.prems(3) True adv by simp
    from Cons.IH [OF all k(2) rest] obtain k2
      where k2: "st' = (bump table_name ^^ k2) st1"
        "sum_list (map called (invs[i := job])) + k2 = sum_list (map called invs')"
      by blast
    have d: "sum_list (map called (invs[i := job])) + called (invs ! i)
       = sum_list (map called invs) + called job"
      using True by (rule sum_called_update)
    have s: "st' = (bump table_name ^^ (k2 + k1)) st"
      by (simp add: k2(1) k1(1) funpow_add)
    have "sum_list (map called invs) + (k2 + k1) = sum_list (map called invs')"
      using d k1(2) k2(2) by linarith
    with s show ?thesis by blast
  qed
qed

lemma in_sequence_store:
  assumes "list_all valid_event events" and "numeric_count table_name (ddb w)"
  shows "ddb (in_sequence (atomic_add None) table_name context events w)
           = (bump table_name ^^ length events) (ddb w)"
  using assms
proof (induction events arbitrary: w)
  case Nil
  then show ?case by (simp add: in_sequence_def)
next
  case (Cons event events)
  let ?w1 = "snd (handler (atomic_add None) table_name event context w)"
  from Cons.prems(1) have v: "valid_event event" and vs: "list_all valid_event events"
    by simp_all
  from v have "nonempty_str (leaf event ''bucketName'')" and "nonempty_str (leaf event ''key'')"
    by (simp_all add: valid_event_def)
  then obtain b k where l: "leaf event ''bucketName'' = Some (PStr b)" "b \<noteq> []"
       "leaf event ''key'' = Some (PStr k)" "k \<noteq> []"
    by (blast dest: nonempty_strD)
  then have od: "object_details event = Inr (PStr b, PStr k)"
    by (rule valid_leaves)
  have tb: "truthy (PStr b)" and tk: "truthy (PStr k)"
    using l by simp_all
  have one: "ddb ?w1 = bump table_name (ddb w)"
    by (simp add: handler_counted [OF od tb tk Cons.prems(2)] print_def)
  have n1: "numeric_count table_name (ddb ?w1)"
    by (simp add: one numeric_count_bump)
  have "ddb (in_sequence (atomic_add None) table_name context events ?w1)
           = (bump table_name ^^ length events) (ddb ?w1)"
    using vs n1 by (rule Cons.IH)
  then show ?case
    by (simp add: in_sequence_def one funpow_swap1)
qed

lemma advance_stage:
  "advance dynamodb table_name job st = (job', st') \<Longrightarrow> min 3 (stage job + 1) \<le> stage job'"
  by (cases job) (auto simp: advance_def stage_def split: sum.splits prod.splits)

lemma run_stage:
  assumes "run dynamodb table_name schedule (invs, st) = (invs', st')" and "i < length invs"
  shows "min 3 (stage (invs ! i) + count_list schedule i) \<le> stage (invs' ! i)"
  using assms
proof (induction schedule arbitrary: invs st)
  case Nil
  then show ?case by simp
next
  case (Cons j schedule)
  show ?case
  proof (cases "j < length invs")
    case False
    with Cons.prems have r: "run dynamodb table_name schedule (invs, st) = (invs', st')"
      and ne: "j \<noteq> i"
      by auto
    from Cons.IH [OF r Cons.prems(2)] ne show ?thesis by simp
  next
    case True
    obtain job st1 where adv: "advance dynamodb table_name (invs ! j) st = (job, st1)"
      by (cases "advance dynamodb table_name (invs ! j) st")
    have rest: "run dynamodb table_name schedule (invs[j := job], st1) = (invs', st')"
      using Cons.prems(1) True adv by simp
    have len: "i < length (invs[j := job])"
      using Cons.prems(2) by simp
    note ih = Cons.IH [OF rest len]
    show ?thesis
    proof (cases "j = i")
      case True
      have "min 3 (stage (invs ! i) + 1) \<le> stage job"
        using adv True by (auto dest: advance_stage)
      moreover have "min 3 (stage job + count_list schedule i) \<le> stage (invs' ! i)"
        using ih True Cons.prems(2) by simp
      ultimately show ?thesis using True by simp
    next
      case False
      with ih show ?thesis by simp
    qed
  qed
qed

lemma stage_returned: "3 \<le> stage job \<Longrightarrow> returned job"
  by (cases job) (simp_all add: stage_def returned_def)

lemma run_all_returned:
  assumes "run dynamodb table_name schedule (invs, st) = (invs', st')"
      and "\<forall>i < length invs. 3 \<le> count_list schedule i"
  shows "list_all returned invs'"
proof -
  have len: "length invs' = length invs"
    using assms(1) by (rule length_run)
  have "returned (invs' ! i)" if "i < length invs" for i
  proof -
    from run_stage [OF assms(1) that] assms(2) that have "3 \<le> stage (invs' ! i)"
      by auto
    then show ?thesis by (rule stage_returned)
  qed
  with len show ?thesis by (simp add: list_all_length)
qed

text \<open>
  C6. For every number of valid invocations and every initial count \<open>C\<close>, every
  interleaving of their steps in which each invocation gets the three steps it needs ends
  with all of them returned and the stored count at \<open>C\<close> plus their number, each store
  call succeeding. The store is then the one that the handler leaves when it is invoked on
  the same events one after the other: the only step of an invocation that touches the
  store is the store's atomic add.
\<close>

theorem concurrent_invocations_all_counted:
  assumes "list_all valid_event events" and "numeric_count table_name (ddb w)"
      and "\<forall>i < length events. 3 \<le> count_list schedule i"
  shows "list_all returned
           (fst (run (atomic_add None) table_name schedule (map Received events, ddb w)))
       \<and> count table_name
           (snd (run (atomic_add None) table_name schedule (map Received events, ddb w)))
           = count table_name (ddb w) + length events
       \<and> snd (run (atomic_add None) table_name schedule (map Received events, ddb w))
           = ddb (foldl (\<lambda>w event. snd (handler (atomic_add None) table_name event context w))
                    w events)"
proof -
  obtain invs st' where r: "run (atomic_add None) table_name schedule (map Received events, ddb w)
                              = (invs, st')"
    by (cases "run (atomic_add None) table_name schedule (map Received events, ddb w)")
  have ret: "list_all returned invs"
    using r assms(3) by (intro run_all_returned [OF r]) simp
  have start: "list_all (on_track table_name) (map Received events)"
    using assms(1) by (simp add: list_all_iff on_track_def)
  have zero: "sum_list (map called (map Received events)) = 0"
    by (induction events) (simp_all add: called_def)
  have len: "length invs = length events"
    using length_run [OF r] by simp
  have fin: "sum_list (map called invs) = length invs"
    using ret by (rule all_returned_called)
  from run_store [OF start assms(2) r] obtain k
    where k: "st' = (bump table_name ^^ k) (ddb w)"
      "sum_list (map called (map Received events)) + k = sum_list (map called invs)"
    by blast
  from k(2) zero fin len have "k = length events" by linarith
  with k(1) have st: "st' = (bump table_name ^^ length events) (ddb w)" by simp
  have seq: "ddb (in_sequence (atomic_add None) table_name context events w)
           = (bump table_name ^^ length events) (ddb w)"
    using assms(1,2) by (rule in_sequence_store)
  have cnt: "count table_name st' = count table_name (ddb w) + length events"
    by (simp add: st count_funpow_bump)
  have "st' = ddb (foldl (\<lambda>w event. snd (handler (atomic_add None) table_name event context w))
                    w events)"
    using st seq by (simp add: in_sequence_def)
  with ret cnt show ?thesis by (simp add: r)
qed

theorem concurrent_invocations_all_counted_witness:
  "list_all valid_event [put_event, put_event]
   \<and> 3 \<le> count_list [0, 1, 1, 0, 1, 0 :: nat] 0
   \<and> 3 \<le> count_list [0, 1, 1, 0, 1, 0 :: nat] 1
   \<and> list_all returned (fst (run (atomic_add None) ''visits'' [0, 1, 1, 0, 1, 0]
                               (map Received [put_event, put_event], ddb visits7)))
   \<and> count ''visits'' (ddb visits7) = 7
   \<and> count ''visits'' (snd (run (atomic_add None) ''visits'' [0, 1, 1, 0, 1, 0]
                               (map Received [put_event, put_event], ddb visits7))) = 9
   \<and> snd (run (atomic_add None) ''visits'' [0, 1, 1, 0, 1, 0]
                               (map Received [put_event, put_event], ddb visits7))
       = ddb (snd (handler (atomic_add None) ''visits'' put_event ()
                     (snd (handler (atomic_add None) ''visits'' put_event () visits7))))"
proof -
  have v: "valid_event put_event"
    by (simp add: valid_event_def nonempty_str_def leaf_def put_event_def)
  then have vs: "list_all valid_event [put_event, put_event]"
    by simp
  have n7: "numeric_count ''visits'' (ddb visits7)"
    by (simp add: numeric_count_def stored_count_def visits7_def)
  have c7: "count ''visits'' (ddb visits7) = 7"
    by (simp add: count_def stored_count_def visits7_def)
  have fair: "\<forall>i < length [put_event, put_event]. 3 \<le> count_list [0, 1, 1, 0, 1, 0 :: nat] i"
    by (simp add: less_Suc_eq)
  have seq: "in_sequence (atomic_add None) ''visits'' () [put_event, put_event] visits7
     = snd (handler (atomic_add None) ''visits'' put_event ()
              (snd (handler (atomic_add None) ''visits'' put_event () visits7)))"
    by (simp add: in_sequence_def)
  let ?r = "run (atomic_add None) ''visits'' [0, 1, 1, 0, 1, 0]
              (map Received [put_event, put_event], ddb visits7)"
  note T = concurrent_invocations_all_counted [OF vs n7 fair, of "()"]
  from T have 1: "list_all returned (fst ?r)"
    by (rule conjunct1)
  from T have "count ''visits'' (snd ?r) = count ''visits'' (ddb visits7) + length [put_event, put_event]"
    by blast
  with c7 have 2: "count ''visits'' (snd ?r) = 9"
    by simp
  from T have "snd ?r = ddb (foldl (\<lambda>w event. snd (handler (atomic_add None) ''visits'' event () w))
                              visits7 [put_event, put_event])"
    by blast
  then have 3: "snd ?r = ddb (snd (handler (atomic_add None) ''visits'' put_event ()
                     (snd (handler (atomic_add None) ''visits'' put_event () visits7))))"
    by simp
  have f0: "3 \<le> count_list [0, 1, 1, 0, 1, 0 :: nat] 0"
    and f1: "3 \<le> count_list [0, 1, 1, 0, 1, 0 :: nat] 1"
    by simp_all
  from vs f0 f1 1 c7 2 3 show ?thesis by (intro conjI)
qed

text \<open>One invocation alone, taking its three steps, is the handler.\<close>

lemma handler_in_steps_raised:
  assumes "before_call table_name event = Inl e"
  shows "handler dynamodb table_name event context w = except_Exception e w"
proof (cases "object_details event")
  case (Inl x)
  with assms have "x = e" by (simp add: before_call_def)
  with Inl show ?thesis by (simp add: handler_raised)
next
  case (Inr bk)
  obtain b k where bk: "bk = (b, k)" by (cases bk)
  from assms Inr bk have "(\<not> truthy b \<or> \<not> truthy k) \<and> e = ValueError ''Invalid event format''"
    by (simp add: before_call_def split: if_splits)
  with Inr bk show ?thesis by (simp add: handler_invalid)
qed

lemma handler_in_steps_called:
  assumes "before_call table_name event = Inr req"
      and "dynamodb req (ddb w) = (answer, st)"
  shows "fst (handler dynamodb table_name event context w) = after_call answer
       \<and> ddb (snd (handler dynamodb table_name event context w)) = st"
proof -
  obtain b k where od: "object_details event = Inr (b, k)" and t: "truthy b" "truthy k"
      and req: "req = visit_request table_name"
    using assms(1)
    by (cases "object_details event") (auto simp: before_call_def split: if_splits)
  show ?thesis
  proof (cases answer)
    case (Inl e)
    with assms(2) req have "dynamodb (visit_request table_name) (ddb w) = (Inl e, st)" by simp
    with od t have "handler dynamodb table_name event context w =
        except_Exception e (w\<lparr>ddb := st, issued := issued w @ [visit_request table_name]\<rparr>)"
      by (intro handler_store_raised)
    with Inl show ?thesis by (simp add: after_call_def failed_result_def)
  next
    case (Inr response)
    with assms(2) req have "dynamodb (visit_request table_name) (ddb w) = (Inr response, st)" by simp
    with od t have h: "handler dynamodb table_name event context w =
         (case new_count_of response of
            Inl e \<Rightarrow> except_Exception e (w\<lparr>ddb := st, issued := issued w @ [visit_request table_name]\<rparr>)
          | Inr new_count \<Rightarrow>
              (\<lparr>statusCode = 200,
                body = json_dumps [(''message'', ''Visit count updated successfully''),
                                   (''count'', new_count)]\<rparr>,
               print ''made few changes using the github actions''
                 (print (''Updated visit count: '' @ new_count)
                    (w\<lparr>ddb := st, issued := issued w @ [visit_request table_name]\<rparr>))))"
      by (intro handler_store_answered)
    show ?thesis
      by (cases "new_count_of response")
         (simp_all add: h Inr after_call_def failed_result_def print_def)
  qed
qed

lemma handler_in_steps:
  "run dynamodb table_name [0, 0, 0] ([Received event], ddb w) =
     ([Returned (fst (handler dynamodb table_name event context w))],
      ddb (snd (handler dynamodb table_name event context w)))"
proof (cases "before_call table_name event")
  case (Inl e)
  have "handler dynamodb table_name event context w = except_Exception e w"
    using Inl by (rule handler_in_steps_raised)
  with Inl show ?thesis by (simp add: advance_def failed_result_def)
next
  case (Inr req)
  obtain answer st where call: "dynamodb req (ddb w) = (answer, st)"
    by (cases "dynamodb req (ddb w)")
  have "fst (handler dynamodb table_name event context w) = after_call answer
       \<and> ddb (snd (handler dynamodb table_name event context w)) = st"
    using Inr call by (rule handler_in_steps_called)
  with Inr call show ?thesis by (simp add: advance_def)
qed

lemma handler_reads_details_only:
  "object_details event = object_details event' \<Longrightarrow>
   handler dynamodb table_name event context w = handler dynamodb table_name event' context w"
  by (simp add: handler_def)

text \<open>
  C7, as amended. For every two events that are mappings whose \<^verbatim>\<open>detail\<close> and
  \<^verbatim>\<open>requestParameters\<close>, where present, are mappings, and that agree on the two leaf fields
  \<^verbatim>\<open>detail.requestParameters.bucketName\<close> and \<^verbatim>\<open>detail.requestParameters.key\<close>, the handler
  run with the same client in the same world returns the same result and leaves the same
  world: the same requests issued, the same store, the same lines printed. All other
  content of such events is ignored.
\<close>

theorem rest_of_event_ignored:
  assumes "well_shaped event" and "well_shaped event'"
      and "leaf event ''bucketName'' = leaf event' ''bucketName''"
      and "leaf event ''key'' = leaf event' ''key''"
  shows "handler dynamodb table_name event context w = handler dynamodb table_name event' context w"
proof -
  have "object_details event = object_details event'"
    using assms by (simp add: object_details_well_shaped)
  then show ?thesis by (rule handler_reads_details_only)
qed

theorem rest_of_event_ignored_witness:
  "handler (atomic_add None) ''visits'' put_event () visits7 =
   handler (atomic_add None) ''visits''
     (PDict [(''source'', PStr ''aws.s3''),
             (''detail'', PDict [(''eventName'', PStr ''PutObject''),
                (''requestParameters'',
                   PDict [(''key'', PStr ''k''), (''bucketName'', PStr ''b''), (''x'', PInt 1)])])])
     () visits7"
proof -
  let ?e = "PDict [(''source'', PStr ''aws.s3''),
             (''detail'', PDict [(''eventName'', PStr ''PutObject''),
                (''requestParameters'',
                   PDict [(''key'', PStr ''k''), (''bucketName'', PStr ''b''), (''x'', PInt 1)])])]"
  have 1: "well_shaped put_event" by (simp add: well_shaped_def put_event_def)
  have 2: "well_shaped ?e" by (simp add: well_shaped_def)
  have 3: "leaf put_event ''bucketName'' = leaf ?e ''bucketName''"
    by (simp add: leaf_def put_event_def)
  have 4: "leaf put_event ''key'' = leaf ?e ''key''"
    by (simp add: leaf_def put_event_def)
  from 1 2 3 4 show ?thesis by (rule rest_of_event_ignored)
qed

text \<open>
  The claim C7 as stated fails on two events that both carry neither leaf: with
  \<^verbatim>\<open>requestParameters\<close> null the lookup raises and the error field is its text, with
  \<^verbatim>\<open>requestParameters\<close> an empty mapping the error field is \<^verbatim>\<open>Invalid event format\<close>.
\<close>

theorem rest_of_event_read_counterexample:
  "leaf (PDict [(''detail'', PDict [(''requestParameters'', PNone)])]) ''bucketName''
     = leaf (PDict [(''detail'', PDict [(''requestParameters'', PDict [])])]) ''bucketName''
   \<and> leaf (PDict [(''detail'', PDict [(''requestParameters'', PNone)])]) ''key''
     = leaf (PDict [(''detail'', PDict [(''requestParameters'', PDict [])])]) ''key''
   \<and> fst (handler (atomic_add None) ''visits''
            (PDict [(''detail'', PDict [(''requestParameters'', PNone)])]) () visits0)
     \<noteq> fst (handler (atomic_add None) ''visits''
            (PDict [(''detail'', PDict [(''requestParameters'', PDict [])])]) () visits0)"
proof -
  let ?e = "PDict [(''detail'', PDict [(''requestParameters'', PNone)])]"
  let ?e' = "PDict [(''detail'', PDict [(''requestParameters'', PDict [])])]"
  have l: "leaf ?e ''bucketName'' = leaf ?e' ''bucketName''" "leaf ?e ''key'' = leaf ?e' ''key''"
    by (simp_all add: leaf_def)
  have od: "object_details ?e =
      Inl (AttributeError (repr_str ''NoneType'' @ '' object has no attribute '' @ repr_str ''get''))"
    by (simp add: object_details_def)
  have h: "fst (handler (atomic_add None) ''visits'' ?e () visits0) =
       failed_result (repr_str ''NoneType'' @ '' object has no attribute '' @ repr_str ''get'')"
    by (simp add: handler_raised [OF od] failed_result_def)
  have od': "object_details ?e' = Inr (PNone, PNone)"
    by (simp add: object_details_def)
  have h': "fst (handler (atomic_add None) ''visits'' ?e' () visits0) =
       failed_result ''Invalid event format''"
    by (simp add: handler_invalid [OF od'] failed_result_def)
  have ne: "failed_result (repr_str ''NoneType'' @ '' object has no attribute '' @ repr_str ''get'')
          \<noteq> failed_result ''Invalid event format''"
    by (simp add: failed_result_def json_dumps_def json_string_def repr_str_def escape_char_def)
  from l h h' ne show ?thesis by simp
qed

end
